theory Spec2Isabelle
  imports Main
begin

section \<open>Value types\<close>

text \<open>
  The middleware of \<^verbatim>\<open>lib/middleware/files.js\<close> reads two request targets
  (\<^verbatim>\<open>req.url\<close>, relative to the mount point, and \<^verbatim>\<open>req.originalUrl\<close>, as received)
  and the per-request configuration \<^verbatim>\<open>req.superstatic\<close>.  The option
  \<^verbatim>\<open>trailingSlash\<close> is compared with \<^verbatim>\<open>===\<close> against \<^verbatim>\<open>undefined\<close>,
  \<^verbatim>\<open>false\<close> and \<^verbatim>\<open>true\<close>: these are \<open>Unspecified\<close>, \<open>ForceAbsent\<close> and
  \<open>ForcePresent\<close>.
\<close>

datatype trailing_slash = Unspecified | ForceAbsent | ForcePresent

record superstatic_config =
  trailingSlash :: trailing_slash
  cleanUrls :: bool

record request =
  url :: string
  originalUrl :: string
  superstatic :: superstatic_config

text \<open>
  What the middleware asks of the responder: \<^verbatim>\<open>handleFileStream({file: p}, result)\<close>
  is \<open>ServeFile p result\<close>, \<^verbatim>\<open>handle({redirect: l})\<close> is \<open>Redirect l\<close>, and
  \<^verbatim>\<open>next()\<close> is \<open>Defer\<close>.  A rejected provider promise reaches the final
  \<^verbatim>\<open>.catch\<close>, which calls \<^verbatim>\<open>handleError(err)\<close>: the left injection of the result.
\<close>

datatype 'd decision = ServeFile string 'd | Redirect string | Defer

type_synonym ('e, 'd) provider = "string \<Rightarrow> 'e + 'd option"

type_synonym ('e, 'd) outcome = "string list \<times> ('e + 'd decision)"

section \<open>String helpers\<close>

text \<open>lodash's \<^verbatim>\<open>_.endsWith(string, target)\<close>: the slice of \<open>string\<close> that ends at its
  end and has the length of \<open>target\<close> equals \<open>target\<close>.\<close>

definition endsWith :: "string \<Rightarrow> string \<Rightarrow> bool" where
  "endsWith s target \<longleftrightarrow>
     length target \<le> length s \<and> drop (length s - length target) s = target"

text \<open>Modelled from the spec: \<^verbatim>\<open>pathutils.removeTrailingString\<close> of
  \<^verbatim>\<open>lib/utils/pathutils.js\<close> (section 9, \<^verbatim>\<open>stripSuffix\<close>): the string without the
  given suffix when it ends with it, the string itself otherwise.\<close>

definition removeTrailingString :: "string \<Rightarrow> string \<Rightarrow> string" where
  "removeTrailingString s rm =
     (if endsWith s rm then take (length s - length rm) s else s)"

text \<open>Modelled from the spec: \<^verbatim>\<open>pathutils.hasTrailingSlash\<close>: the path ends in a slash.\<close>

definition hasTrailingSlash :: "string \<Rightarrow> bool" where
  "hasTrailingSlash pathname \<longleftrightarrow> endsWith pathname ''/''"

text \<open>Modelled from the spec: \<^verbatim>\<open>pathutils.addTrailingSlash\<close>: the path with a trailing
  slash, added when there is none (section 4.2: exactly one slash before \<^verbatim>\<open>index.html\<close>).\<close>

definition addTrailingSlash :: "string \<Rightarrow> string" where
  "addTrailingSlash pathname =
     (if hasTrailingSlash pathname then pathname else pathname @ ''/'')"

text \<open>Modelled from the spec: \<^verbatim>\<open>pathutils.removeTrailingSlash\<close> (section 9).\<close>

definition removeTrailingSlash :: "string \<Rightarrow> string" where
  "removeTrailingSlash pathname = removeTrailingString pathname ''/''"

text \<open>Modelled from the spec: \<^verbatim>\<open>pathutils.asDirectoryIndex\<close>, called on a path that ends
  in a slash: the index file of that directory (section 4.2, step 2).\<close>

definition asDirectoryIndex :: "string \<Rightarrow> string" where
  "asDirectoryIndex pathname = pathname @ ''index.html''"

text \<open>Modelled from the spec: \<^verbatim>\<open>pathutils.normalizeMultiSlashes\<close> (section 4.1): every run
  of two or more consecutive slashes becomes a single slash.\<close>

fun normalizeMultiSlashes :: "string \<Rightarrow> string" where
  "normalizeMultiSlashes [] = []"
| "normalizeMultiSlashes [c] = [c]"
| "normalizeMultiSlashes (c # d # cs) =
     (if c = CHR ''/'' \<and> d = CHR ''/'' then normalizeMultiSlashes (d # cs)
      else c # normalizeMultiSlashes (d # cs))"

text \<open>Modelled from the spec: \<^verbatim>\<open>url.parse\<close> of the library fast-url-parser
  (section 4.1): the target is split at its first \<^verbatim>\<open>?\<close>; the pathname is what comes
  before, the search is the rest, \<^verbatim>\<open>?\<close> included, and is empty when there is none
  (\<^verbatim>\<open>parsedUrl.search || ""\<close>).\<close>

definition url_pathname :: "string \<Rightarrow> string" where
  "url_pathname target = takeWhile (\<lambda>c. c \<noteq> CHR ''?'') target"

definition url_search :: "string \<Rightarrow> string" where
  "url_search target = dropWhile (\<lambda>c. c \<noteq> CHR ''?'') target"

section \<open>The middleware\<close>

text \<open>\<^verbatim>\<open>normalizeRedirectPath\<close>: \<^verbatim>\<open>path || "/"\<close>.\<close>

definition normalizeRedirectPath :: "string \<Rightarrow> string" where
  "normalizeRedirectPath path = (if path = [] then ''/'' else path)"

text \<open>
  \<^verbatim>\<open>res.superstatic.provider(req, path).then(k)\<close> under the final \<^verbatim>\<open>.catch\<close>: the
  provider is called with \<open>path\<close>; a failure ends the resolution with that error, a
  result is passed to the continuation.  The first component records the paths the
  provider was called with, in order.
\<close>

definition provider_then ::
  "('e, 'd) provider \<Rightarrow> string \<Rightarrow> ('d option \<Rightarrow> ('e, 'd) outcome) \<Rightarrow> ('e, 'd) outcome" where
  "provider_then provider path k =
     (case provider path of
        Inl err \<Rightarrow> ([path], Inl err)
      | Inr result \<Rightarrow> (case k result of (calls, out) \<Rightarrow> (path # calls, out)))"

definition handle_redirect :: "string \<Rightarrow> ('e, 'd) outcome" where
  "handle_redirect location = ([], Inr (Redirect location))"

definition handleFileStream :: "string \<Rightarrow> 'd \<Rightarrow> ('e, 'd) outcome" where
  "handleFileStream file result = ([], Inr (ServeFile file result))"

definition call_next :: "('e, 'd) outcome" where
  "call_next = ([], Inr Defer)"

text \<open>
  The request handler that \<^verbatim>\<open>module.exports\<close> returns (lines 18 to 194), with the
  local names of the source.  The provider is a function of the path: the same path gets
  the same answer within a resolution.  In the branch of lines 142 to 165 the source
  also strips \<^verbatim>\<open>appendedPath\<close>, which is not read afterwards; only the stripped
  \<^verbatim>\<open>appendedOriginalPath\<close> reaches the location.
\<close>

definition files :: "('e, 'd) provider \<Rightarrow> request \<Rightarrow> ('e, 'd) outcome" where
  "files provider req =
    (let config = superstatic req;
         trailingSlashBehavior = trailingSlash config;
         pathname = normalizeMultiSlashes (url_pathname (url req));
         search = url_search (url req);
         originalPathname = normalizeMultiSlashes (url_pathname (originalUrl req));
         cleanUrlRules = cleanUrls config
     in provider_then provider pathname (\<lambda>result.
        case result of
          Some found \<Rightarrow>
            if cleanUrlRules \<and> endsWith originalPathname ''.html'' then
              (let redirPath = removeTrailingString originalPathname ''.html'';
                   redirPath = (if endsWith redirPath ''/index''
                                then removeTrailingString redirPath ''/index''
                                else redirPath);
                   redirPath = (if trailingSlashBehavior = ForcePresent
                                then addTrailingSlash redirPath else redirPath)
               in handle_redirect (normalizeRedirectPath (redirPath @ search)))
            else handleFileStream pathname found
        | None \<Rightarrow>
            (let hasSlash = hasTrailingSlash originalPathname;
                 pathAsDirectoryWithIndex = asDirectoryIndex (addTrailingSlash pathname)
             in provider_then provider pathAsDirectoryWithIndex (\<lambda>pathAsDirectoryWithIndexResult.
                case pathAsDirectoryWithIndexResult of
                  Some found \<Rightarrow>
                    if trailingSlashBehavior = Unspecified \<and> \<not> hasSlash \<and> \<not> cleanUrlRules then
                      handle_redirect (addTrailingSlash originalPathname @ search)
                    else if trailingSlashBehavior = ForceAbsent \<and> hasSlash \<and> pathname \<noteq> ''/'' then
                      handle_redirect
                        (normalizeRedirectPath (removeTrailingSlash originalPathname @ search))
                    else if trailingSlashBehavior = ForcePresent \<and> \<not> hasSlash then
                      handle_redirect (addTrailingSlash originalPathname @ search)
                    else handleFileStream pathAsDirectoryWithIndex found
                | None \<Rightarrow>
                    if cleanUrlRules then
                      (let appendedPath =
                             (if hasSlash then
                                (if trailingSlashBehavior \<noteq> Unspecified
                                 then removeTrailingString pathname ''/'' @ ''.html''
                                 else pathname)
                              else pathname @ ''.html'');
                           appendedOriginalPath =
                             (if hasSlash then
                                (if trailingSlashBehavior \<noteq> Unspecified
                                 then removeTrailingString originalPathname ''/'' @ ''.html''
                                 else originalPathname)
                              else originalPathname @ ''.html'')
                       in provider_then provider appendedPath (\<lambda>appendedPathResult.
                          case appendedPathResult of
                            Some found \<Rightarrow>
                              if trailingSlashBehavior = ForceAbsent \<and> hasSlash then
                                handle_redirect
                                  (normalizeRedirectPath
                                     (removeTrailingSlash originalPathname @ search))
                              else if trailingSlashBehavior = ForcePresent \<and> \<not> hasSlash then
                                handle_redirect
                                  (addTrailingSlash
                                     (removeTrailingString
                                        (removeTrailingString appendedOriginalPath ''.html'')
                                        ''/index'') @ search)
                              else if endsWith appendedOriginalPath ''/index.html'' then
                                handle_redirect
                                  (normalizeRedirectPath
                                     (removeTrailingString appendedOriginalPath ''/index.html''
                                        @ search))
                              else handleFileStream appendedPath found
                          | None \<Rightarrow> call_next))
                    else call_next))))"

text \<open>The decision of a resolution, and the provider calls it made.\<close>

definition decide :: "('e, 'd) provider \<Rightarrow> request \<Rightarrow> 'e + 'd decision" where
  "decide provider req = snd (files provider req)"

definition queries :: "('e, 'd) provider \<Rightarrow> request \<Rightarrow> string list" where
  "queries provider req = fst (files provider req)"

text \<open>The values that lines 22 to 29 bind to \<^verbatim>\<open>pathname\<close>, \<^verbatim>\<open>originalPathname\<close>
  and \<^verbatim>\<open>search\<close>.\<close>

abbreviation request_pathname :: "request \<Rightarrow> string" where
  "request_pathname req \<equiv> normalizeMultiSlashes (url_pathname (url req))"

abbreviation request_originalPathname :: "request \<Rightarrow> string" where
  "request_originalPathname req \<equiv> normalizeMultiSlashes (url_pathname (originalUrl req))"

abbreviation request_search :: "request \<Rightarrow> string" where
  "request_search req \<equiv> url_search (url req)"

text \<open>The path that lines 110 to 125 leave in \<^verbatim>\<open>appendedPath\<close> when they start from
  \<^verbatim>\<open>pathname\<close>, and in \<^verbatim>\<open>appendedOriginalPath\<close> when they start from
  \<^verbatim>\<open>originalPathname\<close>; \<open>hasSlash\<close> is \<^verbatim>\<open>hasTrailingSlash\<close> of the original path in
  both.\<close>

definition clean_candidate :: "trailing_slash \<Rightarrow> bool \<Rightarrow> string \<Rightarrow> string" where
  "clean_candidate ts hasSlash path =
     (if hasSlash then
        (if ts \<noteq> Unspecified then removeTrailingString path ''/'' @ ''.html'' else path)
      else path @ ''.html'')"

text \<open>The path given to the provider by the second call (lines 64 to 68).\<close>

abbreviation directory_index :: "string \<Rightarrow> string" where
  "directory_index pathname \<equiv> asDirectoryIndex (addTrailingSlash pathname)"

text \<open>A path with no two adjacent slashes, and a request target whose pathname has its
  runs of slashes collapsed (the search is kept as it is).\<close>

fun slash_collapsed :: "string \<Rightarrow> bool" where
  "slash_collapsed (c # d # cs) \<longleftrightarrow>
     \<not> (c = CHR ''/'' \<and> d = CHR ''/'') \<and> slash_collapsed (d # cs)"
| "slash_collapsed _ \<longleftrightarrow> True"

definition collapse_target :: "string \<Rightarrow> string" where
  "collapse_target target = normalizeMultiSlashes (url_pathname target) @ url_search target"

section \<open>The handler and its responders\<close>

text \<open>
  The same handler with its calls written out.  A run is the list of the calls that the
  handler makes, in order: \<^verbatim>\<open>res.superstatic.provider\<close> with a path (\<open>Query\<close>); one
  of the responders \<^verbatim>\<open>res.superstatic.handle\<close>, \<^verbatim>\<open>res.superstatic.handleFileStream\<close>
  and \<^verbatim>\<open>next\<close>, with the decision that the call carries (\<open>Respond\<close>); and
  \<^verbatim>\<open>res.superstatic.handleError\<close> with its error (\<open>RespondError\<close>).  Such a list can
  hold no responder call, one, or several.
\<close>

datatype ('e, 'd) event = Query string | Respond "'d decision" | RespondError 'e

text \<open>A settled promise: the calls made until it settled, and the value it is fulfilled
  with or the error it is rejected with.\<close>

datatype ('e, 'a) settled = Fulfilled 'a | Rejected 'e

type_synonym ('e, 'd, 'a) promise = "('e, 'd) event list \<times> ('e, 'a) settled"

text \<open>\<^verbatim>\<open>p.then(onFulfilled)\<close>: the callback runs on the value of a fulfilled promise,
  and the result settles as the promise that the callback returns; a rejected promise
  stays rejected and the callback does not run.\<close>

definition promise_then ::
  "('e, 'd, 'a) promise \<Rightarrow> ('a \<Rightarrow> ('e, 'd, 'b) promise) \<Rightarrow> ('e, 'd, 'b) promise" where
  "promise_then p onFulfilled =
     (case p of
        (events, Fulfilled v) \<Rightarrow>
          (case onFulfilled v of (later, s) \<Rightarrow> (events @ later, s))
      | (events, Rejected err) \<Rightarrow> (events, Rejected err))"

text \<open>\<^verbatim>\<open>p.catch(onRejected)\<close>: the callback runs on the error of a rejected promise; a
  fulfilled promise stays as it is.\<close>

definition promise_catch ::
  "('e, 'd, 'a) promise \<Rightarrow> ('e \<Rightarrow> ('e, 'd, 'a) promise) \<Rightarrow> ('e, 'd, 'a) promise" where
  "promise_catch p onRejected =
     (case p of
        (events, Fulfilled v) \<Rightarrow> (events, Fulfilled v)
      | (events, Rejected err) \<Rightarrow>
          (case onRejected err of (later, s) \<Rightarrow> (events @ later, s)))"

text \<open>A call of the provider: the promise is rejected with the error when the lookup
  fails, and fulfilled with the descriptor, or with nothing, otherwise.\<close>

definition provider_promise :: "('e, 'd) provider \<Rightarrow> string \<Rightarrow> ('e, 'd, 'd option) promise" where
  "provider_promise provider path =
     ([Query path], case provider path of Inl err \<Rightarrow> Rejected err | Inr result \<Rightarrow> Fulfilled result)"

text \<open>The responders are given to the handler in \<^verbatim>\<open>res.superstatic\<close> and
  \<^verbatim>\<open>next\<close>; a call of one is recorded and taken to return normally.\<close>

definition respond :: "'d decision \<Rightarrow> ('e, 'd, unit) promise" where
  "respond d = ([Respond d], Fulfilled ())"

definition handleError :: "'e \<Rightarrow> ('e, 'd, unit) promise" where
  "handleError err = ([RespondError err], Fulfilled ())"

text \<open>
  The request handler of lines 18 to 194 again: the chain of \<^verbatim>\<open>.then\<close> callbacks of
  lines 34 to 190 under the \<^verbatim>\<open>.catch\<close> of lines 191 to 193, where each
  \<^verbatim>\<open>return\<close> of a responder call is the promise of that call.
\<close>

definition files_handler :: "('e, 'd) provider \<Rightarrow> request \<Rightarrow> ('e, 'd, unit) promise" where
  "files_handler provider req =
    (let config = superstatic req;
         trailingSlashBehavior = trailingSlash config;
         pathname = normalizeMultiSlashes (url_pathname (url req));
         search = url_search (url req);
         originalPathname = normalizeMultiSlashes (url_pathname (originalUrl req));
         cleanUrlRules = cleanUrls config
     in promise_catch
       (promise_then (provider_promise provider pathname) (\<lambda>result.
        case result of
          Some found \<Rightarrow>
            if cleanUrlRules \<and> endsWith originalPathname ''.html'' then
              (let redirPath = removeTrailingString originalPathname ''.html'';
                   redirPath = (if endsWith redirPath ''/index''
                                then removeTrailingString redirPath ''/index''
                                else redirPath);
                   redirPath = (if trailingSlashBehavior = ForcePresent
                                then addTrailingSlash redirPath else redirPath)
               in respond (Redirect (normalizeRedirectPath (redirPath @ search))))
            else respond (ServeFile pathname found)
        | None \<Rightarrow>
            (let hasSlash = hasTrailingSlash originalPathname;
                 pathAsDirectoryWithIndex = asDirectoryIndex (addTrailingSlash pathname)
             in promise_then (provider_promise provider pathAsDirectoryWithIndex)
               (\<lambda>pathAsDirectoryWithIndexResult.
                case pathAsDirectoryWithIndexResult of
                  Some found \<Rightarrow>
                    if trailingSlashBehavior = Unspecified \<and> \<not> hasSlash \<and> \<not> cleanUrlRules then
                      respond (Redirect (addTrailingSlash originalPathname @ search))
                    else if trailingSlashBehavior = ForceAbsent \<and> hasSlash \<and> pathname \<noteq> ''/'' then
                      respond (Redirect
                        (normalizeRedirectPath (removeTrailingSlash originalPathname @ search)))
                    else if trailingSlashBehavior = ForcePresent \<and> \<not> hasSlash then
                      respond (Redirect (addTrailingSlash originalPathname @ search))
                    else respond (ServeFile pathAsDirectoryWithIndex found)
                | None \<Rightarrow>
                    if cleanUrlRules then
                      (let appendedPath =
                             (if hasSlash then
                                (if trailingSlashBehavior \<noteq> Unspecified
                                 then removeTrailingString pathname ''/'' @ ''.html''
                                 else pathname)
                              else pathname @ ''.html'');
                           appendedOriginalPath =
                             (if hasSlash then
                                (if trailingSlashBehavior \<noteq> Unspecified
                                 then removeTrailingString originalPathname ''/'' @ ''.html''
                                 else originalPathname)
                              else originalPathname @ ''.html'')
                       in promise_then (provider_promise provider appendedPath)
                         (\<lambda>appendedPathResult.
                          case appendedPathResult of
                            Some found \<Rightarrow>
                              if trailingSlashBehavior = ForceAbsent \<and> hasSlash then
                                respond (Redirect
                                  (normalizeRedirectPath
                                     (removeTrailingSlash originalPathname @ search)))
                              else if trailingSlashBehavior = ForcePresent \<and> \<not> hasSlash then
                                respond (Redirect
                                  (addTrailingSlash
                                     (removeTrailingString
                                        (removeTrailingString appendedOriginalPath ''.html'')
                                        ''/index'') @ search))
                              else if endsWith appendedOriginalPath ''/index.html'' then
                                respond (Redirect
                                  (normalizeRedirectPath
                                     (removeTrailingString appendedOriginalPath ''/index.html''
                                        @ search)))
                              else respond (ServeFile appendedPath found)
                          | None \<Rightarrow> respond Defer))
                    else respond Defer))))
       (\<lambda>err. handleError err))"

text \<open>The paths of the provider calls of a run, and its responder calls: the decision of
  a responder, or the error given to \<^verbatim>\<open>handleError\<close>.\<close>

fun provider_calls :: "('e, 'd) event list \<Rightarrow> string list" where
  "provider_calls [] = []"
| "provider_calls (Query path # events) = path # provider_calls events"
| "provider_calls (_ # events) = provider_calls events"

fun responder_calls :: "('e, 'd) event list \<Rightarrow> ('e + 'd decision) list" where
  "responder_calls [] = []"
| "responder_calls (Respond d # events) = Inr d # responder_calls events"
| "responder_calls (RespondError err # events) = Inl err # responder_calls events"
| "responder_calls (Query path # events) = responder_calls events"

text \<open>The responder call that carries an outcome of \<open>files\<close>.\<close>

definition response :: "'e + 'd decision \<Rightarrow> ('e, 'd) event" where
  "response out = (case out of Inl err \<Rightarrow> RespondError err | Inr d \<Rightarrow> Respond d)"

section \<open>Requests and content trees\<close>

text \<open>A request that reaches the middleware with no base path (\<^verbatim>\<open>req.url\<close> and
  \<^verbatim>\<open>req.originalUrl\<close> agree), and one mounted under a base path, where
  \<^verbatim>\<open>req.url\<close> has lost the prefix.\<close>

definition plain_request :: "string \<Rightarrow> trailing_slash \<Rightarrow> bool \<Rightarrow> request" where
  "plain_request target ts cu =
     \<lparr>url = target, originalUrl = target,
      superstatic = \<lparr>trailingSlash = ts, cleanUrls = cu\<rparr>\<rparr>"

definition mounted_request :: "string \<Rightarrow> string \<Rightarrow> trailing_slash \<Rightarrow> bool \<Rightarrow> request" where
  "mounted_request basePath target ts cu =
     \<lparr>url = target, originalUrl = basePath @ target,
      superstatic = \<lparr>trailingSlash = ts, cleanUrls = cu\<rparr>\<rparr>"

text \<open>The tree that the tests write before each case: \<^verbatim>\<open>foo.html\<close>,
  \<^verbatim>\<open>foo/index.html\<close> and \<^verbatim>\<open>foo/bar.html\<close>; the descriptor is the content.\<close>

definition site :: "(string, string) provider" where
  "site path =
     (if path = ''/foo.html'' then Inr (Some ''foo.html content'')
      else if path = ''/foo/index.html'' then Inr (Some ''foo/index.html content'')
      else if path = ''/foo/bar.html'' then Inr (Some ''foo/bar.html content'')
      else Inr None)"

text \<open>A tree where \<^verbatim>\<open>/foo\<close> is content itself and also has a directory index and a
  clean-URL sibling.\<close>

definition crowded_site :: "(string, string) provider" where
  "crowded_site path =
     (if path = ''/foo'' then Inr (Some ''foo content'')
      else if path = ''/foo/index.html'' then Inr (Some ''foo/index.html content'')
      else if path = ''/foo.html'' then Inr (Some ''foo.html content'')
      else Inr None)"

text \<open>The tree of the test "serves a directory index file": only \<^verbatim>\<open>index.html\<close>.\<close>

definition root_site :: "(string, string) provider" where
  "root_site path =
     (if path = ''/index.html'' then Inr (Some ''test'') else Inr None)"

text \<open>A provider whose lookup of \<^verbatim>\<open>/foo/index.html\<close> is rejected.\<close>

definition failing_site :: "(string, string) provider" where
  "failing_site path =
     (if path = ''/foo/index.html'' then Inl ''EIO'' else Inr None)"

text \<open>A tree with a file \<^verbatim>\<open>foo.html\<close> and a file \<^verbatim>\<open>foo.html.html\<close>.\<close>

definition nested_site :: "(string, string) provider" where
  "nested_site path =
     (if path = ''/foo.html'' then Inr (Some ''foo.html content'')
      else if path = ''/foo.html.html'' then Inr (Some ''foo.html.html content'')
      else Inr None)"

text \<open>
  Modelled from the spec: base-path mounting.  The embedding layer strips the mount
  segment on input (the tests mount the handler with \<^verbatim>\<open>connect().use(basePath, ...)\<close>
  under the base paths \<^verbatim>\<open>""\<close> and \<^verbatim>\<open>/base/path\<close>): the original path is the base
  path followed by a rest that is empty or starts with a slash; the path that
  \<^verbatim>\<open>req.url\<close> holds is that rest, and \<^verbatim>\<open>/\<close> when the rest is empty.  A base path
  has no trailing slash.
\<close>

definition mounted_at :: "string \<Rightarrow> request \<Rightarrow> bool" where
  "mounted_at basePath req \<longleftrightarrow>
     \<not> hasTrailingSlash basePath
     \<and> take (length basePath) (request_originalPathname req) = basePath
     \<and> (let rest = drop (length basePath) (request_originalPathname req)
        in (rest = [] \<or> hd rest = CHR ''/'')
           \<and> request_pathname req = (if rest = [] then ''/'' else rest))"

text \<open>A tree with one file, named \<^verbatim>\<open>.html\<close>, in the directory \<^verbatim>\<open>/foo/bar\<close>.\<close>

definition dot_site :: "(string, string) provider" where
  "dot_site path =
     (if path = ''/foo/bar/.html'' then Inr (Some ''foo/bar/.html content'') else Inr None)"

text \<open>A tree with the files \<^verbatim>\<open>.html\<close> (at the relative path that the provider is
  asked for when the slash of \<^verbatim>\<open>/\<close> is removed), \<^verbatim>\<open>/a/index.html\<close>,
  \<^verbatim>\<open>/a/.html\<close> and \<^verbatim>\<open>/a/index/.html\<close>.\<close>

definition chain_site :: "(string, string) provider" where
  "chain_site path =
     (if path = ''.html'' then Inr (Some ''.html content'')
      else if path = ''/a/index.html'' then Inr (Some ''a/index.html content'')
      else if path = ''/a/.html'' then Inr (Some ''a/.html content'')
      else if path = ''/a/index/.html'' then Inr (Some ''a/index/.html content'')
      else Inr None)"

section \<open>Facts about the helpers\<close>

lemmas middleware_defs = files_def provider_then_def handle_redirect_def
  handleFileStream_def call_next_def Let_def

lemmas helper_defs = endsWith_def removeTrailingString_def hasTrailingSlash_def
  addTrailingSlash_def removeTrailingSlash_def asDirectoryIndex_def normalizeRedirectPath_def
  url_pathname_def url_search_def clean_candidate_def

lemmas handler_defs = files_handler_def promise_then_def promise_catch_def
  provider_promise_def respond_def handleError_def Let_def

lemma endsWith_iff: "endsWith s t \<longleftrightarrow> (\<exists>stem. s = stem @ t)"
proof
  assume "endsWith s t"
  then have "s = take (length s - length t) s @ t"
    by (metis append_take_drop_id endsWith_def)
  then show "\<exists>stem. s = stem @ t" ..
next
  assume "\<exists>stem. s = stem @ t"
  then show "endsWith s t" by (auto simp: endsWith_def)
qed

lemma endsWith_append [simp]: "endsWith (stem @ t) t"
  by (simp add: endsWith_def)

lemma removeTrailingString_append [simp]: "removeTrailingString (stem @ t) t = stem"
  by (simp add: removeTrailingString_def)

lemma normalizeMultiSlashes_head: "\<exists>ys. normalizeMultiSlashes (c # cs) = c # ys"
  by (induction cs arbitrary: c) auto

lemma slash_collapsed_normalize: "slash_collapsed (normalizeMultiSlashes xs)"
proof (induction xs rule: normalizeMultiSlashes.induct)
  case (3 c d cs)
  obtain ys where ys: "normalizeMultiSlashes (d # cs) = d # ys"
    using normalizeMultiSlashes_head by blast
  with 3 show ?case by auto
qed simp_all

lemma normalize_collapsed: "slash_collapsed xs \<Longrightarrow> normalizeMultiSlashes xs = xs"
  by (induction xs rule: normalizeMultiSlashes.induct) auto

lemma normalizeMultiSlashes_idem [simp]:
  "normalizeMultiSlashes (normalizeMultiSlashes xs) = normalizeMultiSlashes xs"
  by (simp add: normalize_collapsed slash_collapsed_normalize)

lemma slash_collapsed_prefix: "slash_collapsed (xs @ ys) \<Longrightarrow> slash_collapsed xs"
  by (induction xs rule: slash_collapsed.induct) auto

lemma slash_collapsed_snoc:
  "slash_collapsed xs \<Longrightarrow> \<not> endsWith xs ''/'' \<Longrightarrow> slash_collapsed (xs @ ''/'')"
  by (induction xs rule: slash_collapsed.induct) (auto simp: endsWith_def)

lemma slash_collapsed_no_double: "slash_collapsed (q @ ''/'') \<Longrightarrow> \<not> endsWith q ''/''"
  by (induction q rule: slash_collapsed.induct) (auto simp: endsWith_def)

lemma set_normalizeMultiSlashes: "set (normalizeMultiSlashes xs) \<subseteq> set xs"
  by (induction xs rule: normalizeMultiSlashes.induct) auto

lemma url_search_cases: "url_search t = [] \<or> (\<exists>q. url_search t = CHR ''?'' # q)"
  unfolding url_search_def by (induction t) auto

lemma url_pathname_no_query: "CHR ''?'' \<notin> set (url_pathname t)"
  unfolding url_pathname_def by (induction t) auto

lemma url_pathname_append:
  assumes "CHR ''?'' \<notin> set p" and "s = [] \<or> (\<exists>q. s = CHR ''?'' # q)"
  shows "url_pathname (p @ s) = p"
  using assms unfolding url_pathname_def by (induction p) auto

lemma url_search_append:
  assumes "CHR ''?'' \<notin> set p" and "s = [] \<or> (\<exists>q. s = CHR ''?'' # q)"
  shows "url_search (p @ s) = s"
  using assms unfolding url_search_def by (induction p) auto

lemma normalized_no_query: "CHR ''?'' \<notin> set (normalizeMultiSlashes (url_pathname t))"
  using set_normalizeMultiSlashes url_pathname_no_query by blast

lemma url_pathname_collapse_target [simp]:
  "url_pathname (collapse_target t) = normalizeMultiSlashes (url_pathname t)"
  unfolding collapse_target_def
  by (rule url_pathname_append [OF normalized_no_query url_search_cases])

lemma url_search_collapse_target [simp]:
  "url_search (collapse_target t) = url_search t"
  unfolding collapse_target_def
  by (rule url_search_append [OF normalized_no_query url_search_cases])

section \<open>The middleware, stage by stage\<close>

lemma files_error:
  assumes "provider (request_pathname req) = Inl err"
  shows "files provider req = ([request_pathname req], Inl err)"
  using assms by (simp add: middleware_defs)

lemma files_found:
  assumes "provider (request_pathname req) = Inr (Some d)"
  shows "files provider req =
    ([request_pathname req],
     if cleanUrls (superstatic req) \<and> endsWith (request_originalPathname req) ''.html''
     then Inr (Redirect (normalizeRedirectPath
       ((if trailingSlash (superstatic req) = ForcePresent
         then addTrailingSlash (removeTrailingString (removeTrailingString
                (request_originalPathname req) ''.html'') ''/index'')
         else removeTrailingString (removeTrailingString
                (request_originalPathname req) ''.html'') ''/index'')
        @ request_search req)))
     else Inr (ServeFile (request_pathname req) d))"
  using assms by (simp add: middleware_defs) (simp add: removeTrailingString_def)

lemma files_index_error:
  assumes "provider (request_pathname req) = Inr None"
    and "provider (directory_index (request_pathname req)) = Inl err"
  shows "files provider req =
    ([request_pathname req, directory_index (request_pathname req)], Inl err)"
  using assms by (simp add: middleware_defs)

lemma files_index_found:
  assumes "provider (request_pathname req) = Inr None"
    and "provider (directory_index (request_pathname req)) = Inr (Some d)"
  shows "files provider req =
    ([request_pathname req, directory_index (request_pathname req)],
     if trailingSlash (superstatic req) = Unspecified
        \<and> \<not> hasTrailingSlash (request_originalPathname req)
        \<and> \<not> cleanUrls (superstatic req)
     then Inr (Redirect (addTrailingSlash (request_originalPathname req) @ request_search req))
     else if trailingSlash (superstatic req) = ForceAbsent
        \<and> hasTrailingSlash (request_originalPathname req)
        \<and> request_pathname req \<noteq> ''/''
     then Inr (Redirect (normalizeRedirectPath
            (removeTrailingSlash (request_originalPathname req) @ request_search req)))
     else if trailingSlash (superstatic req) = ForcePresent
        \<and> \<not> hasTrailingSlash (request_originalPathname req)
     then Inr (Redirect (addTrailingSlash (request_originalPathname req) @ request_search req))
     else Inr (ServeFile (directory_index (request_pathname req)) d))"
  using assms by (simp add: middleware_defs)

lemma files_no_clean_urls:
  assumes "provider (request_pathname req) = Inr None"
    and "provider (directory_index (request_pathname req)) = Inr None"
    and "\<not> cleanUrls (superstatic req)"
  shows "files provider req =
    ([request_pathname req, directory_index (request_pathname req)], Inr Defer)"
  using assms by (simp add: middleware_defs)

lemma files_candidate_error:
  assumes "provider (request_pathname req) = Inr None"
    and "provider (directory_index (request_pathname req)) = Inr None"
    and "cleanUrls (superstatic req)"
    and "provider (clean_candidate (trailingSlash (superstatic req))
            (hasTrailingSlash (request_originalPathname req)) (request_pathname req)) = Inl err"
  shows "files provider req =
    ([request_pathname req, directory_index (request_pathname req),
      clean_candidate (trailingSlash (superstatic req))
        (hasTrailingSlash (request_originalPathname req)) (request_pathname req)],
     Inl err)"
  using assms by (simp add: middleware_defs clean_candidate_def)

lemma files_candidate_absent:
  assumes "provider (request_pathname req) = Inr None"
    and "provider (directory_index (request_pathname req)) = Inr None"
    and "cleanUrls (superstatic req)"
    and "provider (clean_candidate (trailingSlash (superstatic req))
            (hasTrailingSlash (request_originalPathname req)) (request_pathname req)) = Inr None"
  shows "files provider req =
    ([request_pathname req, directory_index (request_pathname req),
      clean_candidate (trailingSlash (superstatic req))
        (hasTrailingSlash (request_originalPathname req)) (request_pathname req)],
     Inr Defer)"
  using assms by (simp add: middleware_defs clean_candidate_def)

lemma files_candidate_found:
  assumes "provider (request_pathname req) = Inr None"
    and "provider (directory_index (request_pathname req)) = Inr None"
    and "cleanUrls (superstatic req)"
    and "provider (clean_candidate (trailingSlash (superstatic req))
            (hasTrailingSlash (request_originalPathname req)) (request_pathname req))
         = Inr (Some d)"
  shows "files provider req =
    ([request_pathname req, directory_index (request_pathname req),
      clean_candidate (trailingSlash (superstatic req))
        (hasTrailingSlash (request_originalPathname req)) (request_pathname req)],
     if trailingSlash (superstatic req) = ForceAbsent
        \<and> hasTrailingSlash (request_originalPathname req)
     then Inr (Redirect (normalizeRedirectPath
            (removeTrailingSlash (request_originalPathname req) @ request_search req)))
     else if trailingSlash (superstatic req) = ForcePresent
        \<and> \<not> hasTrailingSlash (request_originalPathname req)
     then Inr (Redirect (addTrailingSlash (removeTrailingString
            (request_originalPathname req) ''/index'') @ request_search req))
     else if endsWith (clean_candidate (trailingSlash (superstatic req))
            (hasTrailingSlash (request_originalPathname req))
            (request_originalPathname req)) ''/index.html''
     then Inr (Redirect (normalizeRedirectPath (removeTrailingString
            (clean_candidate (trailingSlash (superstatic req))
              (hasTrailingSlash (request_originalPathname req))
              (request_originalPathname req)) ''/index.html'' @ request_search req)))
     else Inr (ServeFile (clean_candidate (trailingSlash (superstatic req))
            (hasTrailingSlash (request_originalPathname req)) (request_pathname req)) d))"
  using assms by (simp add: middleware_defs clean_candidate_def)

lemma if_Inr: "(if c then Inr x else Inr y) = Inr (if c then x else y)"
  by simp

lemma files_cases:
  obtains (error) err where "files provider req = ([request_pathname req], Inl err)"
      "provider (request_pathname req) = Inl err"
  | (found) d out where "files provider req = ([request_pathname req], Inr out)"
      "provider (request_pathname req) = Inr (Some d)"
  | (index_error) err where "files provider req =
        ([request_pathname req, directory_index (request_pathname req)], Inl err)"
      "provider (request_pathname req) = Inr None"
      "provider (directory_index (request_pathname req)) = Inl err"
  | (index_found) d out where "files provider req =
        ([request_pathname req, directory_index (request_pathname req)], Inr out)"
      "provider (request_pathname req) = Inr None"
      "provider (directory_index (request_pathname req)) = Inr (Some d)"
  | (no_clean_urls) "files provider req =
        ([request_pathname req, directory_index (request_pathname req)], Inr Defer)"
      "provider (request_pathname req) = Inr None"
      "provider (directory_index (request_pathname req)) = Inr None"
      "\<not> cleanUrls (superstatic req)"
  | (candidate_error) err where "files provider req =
        ([request_pathname req, directory_index (request_pathname req),
          clean_candidate (trailingSlash (superstatic req))
            (hasTrailingSlash (request_originalPathname req)) (request_pathname req)], Inl err)"
      "provider (request_pathname req) = Inr None"
      "provider (directory_index (request_pathname req)) = Inr None"
      "cleanUrls (superstatic req)"
      "provider (clean_candidate (trailingSlash (superstatic req))
            (hasTrailingSlash (request_originalPathname req)) (request_pathname req)) = Inl err"
  | (candidate_result) r out where "files provider req =
        ([request_pathname req, directory_index (request_pathname req),
          clean_candidate (trailingSlash (superstatic req))
            (hasTrailingSlash (request_originalPathname req)) (request_pathname req)], Inr out)"
      "provider (request_pathname req) = Inr None"
      "provider (directory_index (request_pathname req)) = Inr None"
      "cleanUrls (superstatic req)"
      "provider (clean_candidate (trailingSlash (superstatic req))
            (hasTrailingSlash (request_originalPathname req)) (request_pathname req)) = Inr r"
proof (cases "provider (request_pathname req)")
  case (Inl err)
  from files_error [of provider req, OF this] this show ?thesis by (rule error)
next
  case first: (Inr r1)
  show ?thesis
  proof (cases r1)
    case (Some d)
    with first have "provider (request_pathname req) = Inr (Some d)" by simp
    from files_found [of provider req, OF this, unfolded if_Inr] this show ?thesis
      by (rule found)
  next
    case None
    with first have absent: "provider (request_pathname req) = Inr None" by simp
    show ?thesis
    proof (cases "provider (directory_index (request_pathname req))")
      case (Inl err)
      from files_index_error [of provider req, OF absent this] absent this show ?thesis
        by (rule index_error)
    next
      case second: (Inr r2)
      show ?thesis
      proof (cases r2)
        case (Some d)
        with second have f: "provider (directory_index (request_pathname req)) = Inr (Some d)"
          by simp
        from files_index_found [of provider req, OF absent f, unfolded if_Inr] absent f show ?thesis
          by (rule index_found)
      next
        case None
        with second have absent2: "provider (directory_index (request_pathname req)) = Inr None"
          by simp
        show ?thesis
        proof (cases "cleanUrls (superstatic req)")
          case False
          from files_no_clean_urls [of provider req, OF absent absent2 False] absent absent2 False
          show ?thesis by (rule no_clean_urls)
        next
          case True
          show ?thesis
          proof (cases "provider (clean_candidate (trailingSlash (superstatic req))
            (hasTrailingSlash (request_originalPathname req)) (request_pathname req))")
            case (Inl err)
            from files_candidate_error [of provider req, OF absent absent2 True this] absent absent2 True this
            show ?thesis by (rule candidate_error)
          next
            case third: (Inr r3)
            show ?thesis
            proof (cases r3)
              case None
              with third have a3: "provider (clean_candidate (trailingSlash (superstatic req))
                (hasTrailingSlash (request_originalPathname req)) (request_pathname req)) = Inr None"
                by simp
              from files_candidate_absent [of provider req, OF absent absent2 True a3] absent absent2 True a3
              show ?thesis by (rule candidate_result)
            next
              case (Some d)
              with third have f3: "provider (clean_candidate (trailingSlash (superstatic req))
                (hasTrailingSlash (request_originalPathname req)) (request_pathname req))
                 = Inr (Some d)"
                by simp
              from files_candidate_found [of provider req, OF absent absent2 True f3, unfolded if_Inr]
                absent absent2 True f3
              show ?thesis by (rule candidate_result)
            qed
          qed
        qed
      qed
    qed
  qed
qed



lemma redirect_cases:
  assumes "decide provider req = Inr (Redirect loc)"
  obtains (exact) d where
      "provider (request_pathname req) = Inr (Some d)"
      "cleanUrls (superstatic req)"
      "endsWith (request_originalPathname req) ''.html''"
      "loc = normalizeRedirectPath
         ((if trailingSlash (superstatic req) = ForcePresent
           then addTrailingSlash (removeTrailingString (removeTrailingString
                  (request_originalPathname req) ''.html'') ''/index'')
           else removeTrailingString (removeTrailingString
                  (request_originalPathname req) ''.html'') ''/index'')
          @ request_search req)"
  | (index_add) d where
      "provider (request_pathname req) = Inr None"
      "provider (directory_index (request_pathname req)) = Inr (Some d)"
      "\<not> hasTrailingSlash (request_originalPathname req)"
      "trailingSlash (superstatic req) = ForcePresent
       \<or> trailingSlash (superstatic req) = Unspecified \<and> \<not> cleanUrls (superstatic req)"
      "loc = addTrailingSlash (request_originalPathname req) @ request_search req"
  | (index_remove) d where
      "provider (request_pathname req) = Inr None"
      "provider (directory_index (request_pathname req)) = Inr (Some d)"
      "trailingSlash (superstatic req) = ForceAbsent"
      "hasTrailingSlash (request_originalPathname req)"
      "request_pathname req \<noteq> ''/''"
      "loc = normalizeRedirectPath
         (removeTrailingSlash (request_originalPathname req) @ request_search req)"
  | (candidate_remove) d where
      "provider (request_pathname req) = Inr None"
      "provider (directory_index (request_pathname req)) = Inr None"
      "cleanUrls (superstatic req)"
      "provider (clean_candidate (trailingSlash (superstatic req))
         (hasTrailingSlash (request_originalPathname req)) (request_pathname req)) = Inr (Some d)"
      "trailingSlash (superstatic req) = ForceAbsent"
      "hasTrailingSlash (request_originalPathname req)"
      "loc = normalizeRedirectPath
         (removeTrailingSlash (request_originalPathname req) @ request_search req)"
  | (candidate_add) d where
      "provider (request_pathname req) = Inr None"
      "provider (directory_index (request_pathname req)) = Inr None"
      "cleanUrls (superstatic req)"
      "provider (clean_candidate (trailingSlash (superstatic req))
         (hasTrailingSlash (request_originalPathname req)) (request_pathname req)) = Inr (Some d)"
      "trailingSlash (superstatic req) = ForcePresent"
      "\<not> hasTrailingSlash (request_originalPathname req)"
      "loc = addTrailingSlash (removeTrailingString (request_originalPathname req) ''/index'')
         @ request_search req"
  | (candidate_index) d where
      "provider (request_pathname req) = Inr None"
      "provider (directory_index (request_pathname req)) = Inr None"
      "cleanUrls (superstatic req)"
      "provider (clean_candidate (trailingSlash (superstatic req))
         (hasTrailingSlash (request_originalPathname req)) (request_pathname req)) = Inr (Some d)"
      "\<not> (trailingSlash (superstatic req) = ForceAbsent
          \<and> hasTrailingSlash (request_originalPathname req))"
      "\<not> (trailingSlash (superstatic req) = ForcePresent
          \<and> \<not> hasTrailingSlash (request_originalPathname req))"
      "endsWith (clean_candidate (trailingSlash (superstatic req))
         (hasTrailingSlash (request_originalPathname req)) (request_originalPathname req))
         ''/index.html''"
      "loc = normalizeRedirectPath (removeTrailingString
         (clean_candidate (trailingSlash (superstatic req))
           (hasTrailingSlash (request_originalPathname req)) (request_originalPathname req))
         ''/index.html'' @ request_search req)"
proof (cases provider req rule: files_cases)
  case (error err)
  with assms show ?thesis by (simp add: decide_def)
next
  case (found d out)
  from assms files_found [of provider req d, OF found(2)]
  have "cleanUrls (superstatic req) \<and> endsWith (request_originalPathname req) ''.html''"
    and "loc = normalizeRedirectPath
         ((if trailingSlash (superstatic req) = ForcePresent
           then addTrailingSlash (removeTrailingString (removeTrailingString
                  (request_originalPathname req) ''.html'') ''/index'')
           else removeTrailingString (removeTrailingString
                  (request_originalPathname req) ''.html'') ''/index'')
          @ request_search req)"
    by (simp_all add: decide_def split: if_splits)
  with found(2) show ?thesis using exact by blast
next
  case (index_error err)
  with assms show ?thesis by (simp add: decide_def)
next
  case (index_found d out)
  from assms files_index_found [of provider req d, OF index_found(2,3)]
  consider
    "\<not> hasTrailingSlash (request_originalPathname req)"
      "trailingSlash (superstatic req) = ForcePresent
       \<or> trailingSlash (superstatic req) = Unspecified \<and> \<not> cleanUrls (superstatic req)"
      "loc = addTrailingSlash (request_originalPathname req) @ request_search req"
  | "trailingSlash (superstatic req) = ForceAbsent"
      "hasTrailingSlash (request_originalPathname req)"
      "request_pathname req \<noteq> ''/''"
      "loc = normalizeRedirectPath
         (removeTrailingSlash (request_originalPathname req) @ request_search req)"
    by (simp add: decide_def split: if_splits)
  then show ?thesis
  proof cases
    case 1
    with index_found(2,3) show ?thesis using index_add by blast
  next
    case 2
    with index_found(2,3) show ?thesis using index_remove by blast
  qed
next
  case no_clean_urls
  with assms show ?thesis by (simp add: decide_def)
next
  case (candidate_error err)
  with assms show ?thesis by (simp add: decide_def)
next
  case (candidate_result r out)
  show ?thesis
  proof (cases r)
    case None
    with candidate_result(5)
    have "provider (clean_candidate (trailingSlash (superstatic req))
         (hasTrailingSlash (request_originalPathname req)) (request_pathname req)) = Inr None"
      by simp
    from assms files_candidate_absent [of provider req, OF candidate_result(2,3,4) this]
    show ?thesis by (simp add: decide_def)
  next
    case (Some d)
    with candidate_result(5)
    have f: "provider (clean_candidate (trailingSlash (superstatic req))
         (hasTrailingSlash (request_originalPathname req)) (request_pathname req)) = Inr (Some d)"
      by simp
    from assms files_candidate_found [of provider req d, OF candidate_result(2,3,4) f]
    consider
      "trailingSlash (superstatic req) = ForceAbsent"
        "hasTrailingSlash (request_originalPathname req)"
        "loc = normalizeRedirectPath
           (removeTrailingSlash (request_originalPathname req) @ request_search req)"
    | "trailingSlash (superstatic req) = ForcePresent"
        "\<not> hasTrailingSlash (request_originalPathname req)"
        "loc = addTrailingSlash (removeTrailingString (request_originalPathname req) ''/index'')
           @ request_search req"
    | "\<not> (trailingSlash (superstatic req) = ForceAbsent
          \<and> hasTrailingSlash (request_originalPathname req))"
        "\<not> (trailingSlash (superstatic req) = ForcePresent
          \<and> \<not> hasTrailingSlash (request_originalPathname req))"
        "endsWith (clean_candidate (trailingSlash (superstatic req))
           (hasTrailingSlash (request_originalPathname req)) (request_originalPathname req))
           ''/index.html''"
        "loc = normalizeRedirectPath (removeTrailingString
           (clean_candidate (trailingSlash (superstatic req))
             (hasTrailingSlash (request_originalPathname req)) (request_originalPathname req))
           ''/index.html'' @ request_search req)"
      by (simp add: decide_def split: if_splits)
    then show ?thesis
    proof cases
      case 1
      with candidate_result(2,3,4) f show ?thesis using candidate_remove by blast
    next
      case 2
      with candidate_result(2,3,4) f show ?thesis using candidate_add by blast
    next
      case 3
      with candidate_result(2,3,4) f show ?thesis using candidate_index by blast
    qed
  qed
qed

section \<open>Redirect locations\<close>

lemma removeTrailingString_collapsed:
  "slash_collapsed x \<Longrightarrow> slash_collapsed (removeTrailingString x t)"
  using slash_collapsed_prefix [of "take (length x - length t) x" "drop (length x - length t) x"]
  by (simp add: removeTrailingString_def)

lemma addTrailingSlash_collapsed:
  "slash_collapsed x \<Longrightarrow> slash_collapsed (addTrailingSlash x)"
  unfolding addTrailingSlash_def hasTrailingSlash_def
  by (simp add: slash_collapsed_snoc)

lemma clean_candidate_strip_collapsed:
  assumes "slash_collapsed x" and "endsWith (clean_candidate ts hs x) ''/index.html''"
  shows "slash_collapsed (removeTrailingString (clean_candidate ts hs x) ''/index.html'')"
proof -
  from assms(2) obtain stem where stem: "clean_candidate ts hs x = stem @ ''/index.html''"
    by (auto simp: endsWith_iff)
  have "x = stem @ ''/index.html'' \<or> x = stem @ ''/index''
      \<or> removeTrailingString x ''/'' = stem @ ''/index''"
    using stem unfolding clean_candidate_def
    by (simp split: if_splits)
  moreover have "slash_collapsed (removeTrailingString x ''/'')"
    using assms(1) by (rule removeTrailingString_collapsed)
  ultimately have "slash_collapsed stem"
    using assms(1) slash_collapsed_prefix by metis
  then show ?thesis by (simp add: stem)
qed

lemma normalizeRedirectPath_addTrailingSlash:
  "normalizeRedirectPath (addTrailingSlash x @ s) = addTrailingSlash x @ s"
  by (auto simp: normalizeRedirectPath_def addTrailingSlash_def hasTrailingSlash_def
        endsWith_def)

lemma collapsed_locationI:
  "slash_collapsed path \<Longrightarrow> loc = normalizeRedirectPath (path @ s) \<Longrightarrow>
   \<exists>path. slash_collapsed path \<and> loc = normalizeRedirectPath (path @ s)"
  by blast

lemma redirect_location_collapsed:
  assumes "decide provider req = Inr (Redirect loc)"
  shows "\<exists>path. slash_collapsed path
           \<and> loc = normalizeRedirectPath (path @ request_search req)"
proof -
  have op: "slash_collapsed (request_originalPathname req)"
    by (rule slash_collapsed_normalize)
  from assms show ?thesis
  proof (cases rule: redirect_cases)
    case (exact d)
    show ?thesis
      by (rule collapsed_locationI [OF _ exact(4)])
        (simp add: op addTrailingSlash_collapsed removeTrailingString_collapsed)
  next
    case (index_add d)
    show ?thesis
      by (rule collapsed_locationI
            [OF _ trans [OF index_add(5) normalizeRedirectPath_addTrailingSlash [symmetric]]])
        (simp add: op addTrailingSlash_collapsed)
  next
    case (index_remove d)
    show ?thesis
      by (rule collapsed_locationI [OF _ index_remove(6)])
        (simp add: op removeTrailingSlash_def removeTrailingString_collapsed)
  next
    case (candidate_remove d)
    show ?thesis
      by (rule collapsed_locationI [OF _ candidate_remove(7)])
        (simp add: op removeTrailingSlash_def removeTrailingString_collapsed)
  next
    case (candidate_add d)
    show ?thesis
      by (rule collapsed_locationI
            [OF _ trans [OF candidate_add(7) normalizeRedirectPath_addTrailingSlash [symmetric]]])
        (simp add: op addTrailingSlash_collapsed removeTrailingString_collapsed)
  next
    case (candidate_index d)
    show ?thesis
      by (rule collapsed_locationI [OF _ candidate_index(8)])
        (rule clean_candidate_strip_collapsed [OF op candidate_index(7)])
  qed
qed


section \<open>Exact match\<close>

text \<open>
  Claim C2 (exact-match precedence).  When the provider returns a descriptor for the
  normalized path, and it is not the case that \<^verbatim>\<open>cleanUrls\<close> is enabled and the
  slash-collapsed original path ends in \<^verbatim>\<open>.html\<close>, the decision is to serve the
  normalized path with that descriptor, whatever the provider holds for the directory
  index or for a clean-URL sibling.
\<close>

theorem exact_match_precedence:
  assumes "provider (request_pathname req) = Inr (Some d)"
    and "\<not> (cleanUrls (superstatic req) \<and> endsWith (request_originalPathname req) ''.html'')"
  shows "decide provider req = Inr (ServeFile (request_pathname req) d)"
  using assms by (simp add: decide_def files_found)

theorem exact_match_precedence_witness:
  "crowded_site ''/foo/index.html'' = Inr (Some ''foo/index.html content'')
   \<and> crowded_site ''/foo.html'' = Inr (Some ''foo.html content'')
   \<and> decide crowded_site (plain_request ''/foo?a=1'' ForcePresent True)
       = Inr (ServeFile ''/foo'' ''foo content'')"
  using exact_match_precedence [of crowded_site "plain_request ''/foo?a=1'' ForcePresent True"
      "''foo content''"]
  by (simp add: crowded_site_def plain_request_def helper_defs)

text \<open>
  Claim C3 (clean-URL redirect of an exact match) gives, for an exact match whose path
  ends in \<^verbatim>\<open>.html\<close> under \<^verbatim>\<open>cleanUrls\<close>, the location: the original path without
  \<^verbatim>\<open>.html\<close> and without a trailing \<^verbatim>\<open>/index\<close>, an empty result normalized to
  \<^verbatim>\<open>/\<close>, followed by the search.  For the file \<^verbatim>\<open>index.html\<close> and the request
  \<^verbatim>\<open>/index.html?q=1\<close> the stripped path is empty, so the location of the claim is
  \<^verbatim>\<open>/?q=1\<close>.  Line 53 gives \<^verbatim>\<open>normalizeRedirectPath\<close> the path and the search
  together, which is not empty, and the location is \<^verbatim>\<open>?q=1\<close>, with no path.
\<close>

theorem clean_url_exact_redirect_empty_path:
  "removeTrailingString (removeTrailingString ''/index.html'' ''.html'') ''/index'' = []
   \<and> decide root_site (plain_request ''/index.html?q=1'' ForceAbsent True)
       = Inr (Redirect ''?q=1'')"
  by (simp add: decide_def middleware_defs root_site_def plain_request_def helper_defs)

section \<open>Directory index\<close>

text \<open>
  Claim C4 (directory-index dispatch).  When no content exists at the normalized path
  but content exists at the normalized path joined with \<^verbatim>\<open>/index.html\<close> (one slash
  between them), the decision is: a redirect to the original path plus \<^verbatim>\<open>/\<close> plus
  the search under \<open>Unspecified\<close>, no trailing slash and \<^verbatim>\<open>cleanUrls\<close> disabled; a
  redirect to the original path without its trailing slash plus the search (empty
  becomes \<^verbatim>\<open>/\<close>) under \<open>ForceAbsent\<close>, a trailing slash and a normalized path other
  than \<^verbatim>\<open>/\<close>; a redirect to the original path plus \<^verbatim>\<open>/\<close> plus the search under
  \<open>ForcePresent\<close> and no trailing slash; otherwise the index file is served.
\<close>

theorem directory_index_dispatch:
  assumes "provider (request_pathname req) = Inr None"
    and "provider (if hasTrailingSlash (request_pathname req)
                   then request_pathname req @ ''index.html''
                   else request_pathname req @ ''/index.html'') = Inr (Some d)"
  shows "decide provider req =
    (if trailingSlash (superstatic req) = Unspecified
        \<and> \<not> hasTrailingSlash (request_originalPathname req)
        \<and> \<not> cleanUrls (superstatic req)
     then Inr (Redirect (request_originalPathname req @ ''/'' @ request_search req))
     else if trailingSlash (superstatic req) = ForceAbsent
        \<and> hasTrailingSlash (request_originalPathname req)
        \<and> request_pathname req \<noteq> ''/''
     then Inr (Redirect
       (if removeTrailingSlash (request_originalPathname req) @ request_search req = []
        then ''/''
        else removeTrailingSlash (request_originalPathname req) @ request_search req))
     else if trailingSlash (superstatic req) = ForcePresent
        \<and> \<not> hasTrailingSlash (request_originalPathname req)
     then Inr (Redirect (request_originalPathname req @ ''/'' @ request_search req))
     else Inr (ServeFile
       (if hasTrailingSlash (request_pathname req)
        then request_pathname req @ ''index.html''
        else request_pathname req @ ''/index.html'') d))"
proof -
  have idx: "directory_index (request_pathname req) =
      (if hasTrailingSlash (request_pathname req)
       then request_pathname req @ ''index.html''
       else request_pathname req @ ''/index.html'')"
    by (simp add: asDirectoryIndex_def addTrailingSlash_def)
  have slash: "\<not> hasTrailingSlash (request_originalPathname req) \<Longrightarrow>
      addTrailingSlash (request_originalPathname req) @ request_search req
      = request_originalPathname req @ ''/'' @ request_search req"
    by (simp add: addTrailingSlash_def)
  have found: "provider (directory_index (request_pathname req)) = Inr (Some d)"
    using assms(2) idx by simp
  show ?thesis
    unfolding decide_def files_index_found [of provider req d, OF assms(1) found]
    using slash idx
    by (simp add: normalizeRedirectPath_def)
qed

theorem directory_index_dispatch_witness:
  "decide site (plain_request ''/foo?query=params'' Unspecified False)
     = Inr (Redirect ''/foo/?query=params'')
   \<and> decide site (mounted_request ''/base/path'' ''/foo////'' ForceAbsent False)
     = Inr (Redirect ''/base/path/foo'')
   \<and> decide site (plain_request ''/foo'' ForcePresent True) = Inr (Redirect ''/foo/'')
   \<and> decide site (plain_request ''/foo'' Unspecified True)
     = Inr (ServeFile ''/foo/index.html'' ''foo/index.html content'')
   \<and> decide root_site (plain_request ''/'' ForceAbsent False)
     = Inr (ServeFile ''/index.html'' ''test'')"
proof -
  have a: "decide site (plain_request ''/foo?query=params'' Unspecified False)
     = Inr (Redirect ''/foo/?query=params'')"
    using directory_index_dispatch [of site
        "plain_request ''/foo?query=params'' Unspecified False" "''foo/index.html content''"]
    by (simp add: root_site_def site_def mounted_request_def plain_request_def helper_defs)
  have b: "decide site (mounted_request ''/base/path'' ''/foo////'' ForceAbsent False)
     = Inr (Redirect ''/base/path/foo'')"
    using directory_index_dispatch [of site
        "mounted_request ''/base/path'' ''/foo////'' ForceAbsent False"
        "''foo/index.html content''"]
    by (simp add: root_site_def site_def mounted_request_def plain_request_def helper_defs)
  have c: "decide site (plain_request ''/foo'' ForcePresent True) = Inr (Redirect ''/foo/'')"
    using directory_index_dispatch [of site "plain_request ''/foo'' ForcePresent True"
        "''foo/index.html content''"]
    by (simp add: root_site_def site_def mounted_request_def plain_request_def helper_defs)
  have d: "decide site (plain_request ''/foo'' Unspecified True)
     = Inr (ServeFile ''/foo/index.html'' ''foo/index.html content'')"
    using directory_index_dispatch [of site "plain_request ''/foo'' Unspecified True"
        "''foo/index.html content''"]
    by (simp add: root_site_def site_def mounted_request_def plain_request_def helper_defs)
  have e: "decide root_site (plain_request ''/'' ForceAbsent False)
     = Inr (ServeFile ''/index.html'' ''test'')"
    using directory_index_dispatch [of root_site "plain_request ''/'' ForceAbsent False"
        "''test''"]
    by (simp add: root_site_def site_def mounted_request_def plain_request_def helper_defs)
  show ?thesis by (intro conjI a b c d e)
qed

section \<open>Clean URLs\<close>

text \<open>
  Claim C5 (clean-URL dispatch), as stated, fails for a path with a trailing slash under
  \<open>Unspecified\<close>.  The candidate of the claim is then the path plus \<^verbatim>\<open>.html\<close>.  In the
  tree with the one file \<^verbatim>\<open>/foo/bar/.html\<close>, for the request \<^verbatim>\<open>/foo/bar/\<close>, neither
  the path nor its directory index exists and that candidate does, so the claim gives
  \<open>ServeFile\<close>.  Lines 110 to 129 leave \<^verbatim>\<open>appendedPath\<close> as the path itself in this
  case and ask the provider for it again: the decision is \<open>Defer\<close>.
\<close>

theorem clean_url_candidate_counterexample:
  "dot_site ''/foo/bar/'' = Inr None
   \<and> dot_site ''/foo/bar/index.html'' = Inr None
   \<and> dot_site (''/foo/bar/'' @ ''.html'') = Inr (Some ''foo/bar/.html content'')
   \<and> decide dot_site (plain_request ''/foo/bar/'' Unspecified True) = Inr Defer"
  by (simp add: decide_def middleware_defs dot_site_def plain_request_def helper_defs)

text \<open>
  Claim C5, amended.  Neither the normalized path nor its directory index exists,
  \<^verbatim>\<open>cleanUrls\<close> is enabled, and the original path either has no trailing slash or the
  policy is not \<open>Unspecified\<close>.  The candidate is the path, without its trailing slash
  when the original path has one, plus \<^verbatim>\<open>.html\<close>; its counterpart is built in the
  same way from the original path.  When the provider finds the candidate, the decision
  is: under \<open>ForceAbsent\<close> and a trailing slash, a redirect to the original path without
  it, plus the search; else under \<open>ForcePresent\<close> and no trailing slash, a redirect to
  the counterpart without \<^verbatim>\<open>.html\<close> and without a trailing \<^verbatim>\<open>/index\<close>, with a
  trailing slash, plus the search; else, when the counterpart ends in
  \<^verbatim>\<open>/index.html\<close>, a redirect to the counterpart without it, plus the search; else the
  candidate is served.  An empty path of a location becomes \<^verbatim>\<open>/\<close>.  The last
  hypothesis leaves out the requests with a search whose location has an empty path:
  there lines 136 and 169 give the search alone (claim C7).
\<close>

theorem clean_url_dispatch:
  assumes "provider (request_pathname req) = Inr None"
    and "provider (directory_index (request_pathname req)) = Inr None"
    and "cleanUrls (superstatic req)"
    and "hasTrailingSlash (request_originalPathname req)
           \<longrightarrow> trailingSlash (superstatic req) \<noteq> Unspecified"
    and "provider ((if hasTrailingSlash (request_originalPathname req)
                    then removeTrailingString (request_pathname req) ''/''
                    else request_pathname req) @ ''.html'') = Inr (Some d)"
    and "request_search req \<noteq> [] \<longrightarrow>
           (trailingSlash (superstatic req) = ForceAbsent
              \<and> hasTrailingSlash (request_originalPathname req)
            \<longrightarrow> removeTrailingSlash (request_originalPathname req) \<noteq> [])
         \<and> (\<not> (trailingSlash (superstatic req) = ForceAbsent
                 \<and> hasTrailingSlash (request_originalPathname req))
            \<and> \<not> (trailingSlash (superstatic req) = ForcePresent
                 \<and> \<not> hasTrailingSlash (request_originalPathname req))
            \<longrightarrow> removeTrailingString
                  ((if hasTrailingSlash (request_originalPathname req)
                    then removeTrailingString (request_originalPathname req) ''/''
                    else request_originalPathname req) @ ''.html'') ''/index.html'' \<noteq> [])"
  shows "decide provider req =
    (if trailingSlash (superstatic req) = ForceAbsent
        \<and> hasTrailingSlash (request_originalPathname req)
     then Inr (Redirect
            ((if removeTrailingSlash (request_originalPathname req) = [] then ''/''
              else removeTrailingSlash (request_originalPathname req)) @ request_search req))
     else if trailingSlash (superstatic req) = ForcePresent
        \<and> \<not> hasTrailingSlash (request_originalPathname req)
     then Inr (Redirect (addTrailingSlash
            (removeTrailingString
               (removeTrailingString
                  ((if hasTrailingSlash (request_originalPathname req)
                    then removeTrailingString (request_originalPathname req) ''/''
                    else request_originalPathname req) @ ''.html'') ''.html'')
               ''/index'') @ request_search req))
     else if endsWith ((if hasTrailingSlash (request_originalPathname req)
                        then removeTrailingString (request_originalPathname req) ''/''
                        else request_originalPathname req) @ ''.html'') ''/index.html''
     then Inr (Redirect
            ((if removeTrailingString
                   ((if hasTrailingSlash (request_originalPathname req)
                     then removeTrailingString (request_originalPathname req) ''/''
                     else request_originalPathname req) @ ''.html'') ''/index.html'' = []
              then ''/''
              else removeTrailingString
                   ((if hasTrailingSlash (request_originalPathname req)
                     then removeTrailingString (request_originalPathname req) ''/''
                     else request_originalPathname req) @ ''.html'') ''/index.html'')
             @ request_search req))
     else Inr (ServeFile
            ((if hasTrailingSlash (request_originalPathname req)
              then removeTrailingString (request_pathname req) ''/''
              else request_pathname req) @ ''.html'') d))"
proof -
  have cand: "clean_candidate (trailingSlash (superstatic req))
        (hasTrailingSlash (request_originalPathname req)) path =
      (if hasTrailingSlash (request_originalPathname req)
       then removeTrailingString path ''/'' else path) @ ''.html''" for path
    using assms(4) by (simp add: clean_candidate_def)
  have found: "provider (clean_candidate (trailingSlash (superstatic req))
        (hasTrailingSlash (request_originalPathname req)) (request_pathname req)) = Inr (Some d)"
    using assms(5) by (simp only: cand)
  have norm: "search \<noteq> [] \<longrightarrow> path \<noteq> [] \<Longrightarrow>
      normalizeRedirectPath (path @ search) = (if path = [] then ''/'' else path) @ search"
    for path search :: string
    by (auto simp add: normalizeRedirectPath_def)
  show ?thesis
  proof (cases "hasTrailingSlash (request_originalPathname req)")
    case True
    with assms(4) have "trailingSlash (superstatic req) \<noteq> Unspecified" by simp
    with True assms(6) show ?thesis
      unfolding decide_def files_candidate_found [of provider req d, OF assms(1,2,3) found]
      by (simp add: clean_candidate_def norm)
  next
    case False
    with assms(6) show ?thesis
      unfolding decide_def files_candidate_found [of provider req d, OF assms(1,2,3) found]
      by (simp add: clean_candidate_def norm)
  qed
qed

theorem clean_url_dispatch_witness:
  "decide site (plain_request ''/foo/bar/?x=1'' ForceAbsent True)
     = Inr (Redirect ''/foo/bar?x=1'')
   \<and> decide site (plain_request ''/foo/bar'' ForcePresent True)
     = Inr (Redirect ''/foo/bar/'')
   \<and> decide site (plain_request ''/foo/index?x=1'' Unspecified True)
     = Inr (Redirect ''/foo?x=1'')
   \<and> decide root_site (plain_request ''/index'' ForceAbsent True)
     = Inr (Redirect ''/'')
   \<and> decide site (plain_request ''/foo/bar/'' ForcePresent True)
     = Inr (ServeFile ''/foo/bar.html'' ''foo/bar.html content'')"
proof -
  have a: "decide site (plain_request ''/foo/bar/?x=1'' ForceAbsent True)
     = Inr (Redirect ''/foo/bar?x=1'')"
    using clean_url_dispatch [of site "plain_request ''/foo/bar/?x=1'' ForceAbsent True"
        "''foo/bar.html content''"]
    by (simp add: site_def plain_request_def helper_defs)
  have b: "decide site (plain_request ''/foo/bar'' ForcePresent True)
     = Inr (Redirect ''/foo/bar/'')"
    using clean_url_dispatch [of site "plain_request ''/foo/bar'' ForcePresent True"
        "''foo/bar.html content''"]
    by (simp add: site_def plain_request_def helper_defs)
  have c: "decide site (plain_request ''/foo/index?x=1'' Unspecified True)
     = Inr (Redirect ''/foo?x=1'')"
    using clean_url_dispatch [of site "plain_request ''/foo/index?x=1'' Unspecified True"
        "''foo/index.html content''"]
    by (simp add: site_def plain_request_def helper_defs)
  have d: "decide root_site (plain_request ''/index'' ForceAbsent True)
     = Inr (Redirect ''/'')"
    using clean_url_dispatch [of root_site "plain_request ''/index'' ForceAbsent True"
        "''test''"]
    by (simp add: root_site_def plain_request_def helper_defs)
  have e: "decide site (plain_request ''/foo/bar/'' ForcePresent True)
     = Inr (ServeFile ''/foo/bar.html'' ''foo/bar.html content'')"
    using clean_url_dispatch [of site "plain_request ''/foo/bar/'' ForcePresent True"
        "''foo/bar.html content''"]
    by (simp add: site_def plain_request_def helper_defs)
  show ?thesis by (intro conjI a b c d e)
qed

text \<open>
  Claim C6 (no candidate under \<open>Unspecified\<close> and a trailing slash).  With
  \<^verbatim>\<open>cleanUrls\<close> enabled, a trailing slash on the original path, the policy
  \<open>Unspecified\<close>, and neither the normalized path nor its directory index present, the
  decision is \<open>Defer\<close>.  The third provider call repeats the normalized path, which
  \<^verbatim>\<open>appendedPath\<close> still holds; neither the \<^verbatim>\<open>.html\<close> sibling (the path without
  its trailing slash plus \<^verbatim>\<open>.html\<close>) nor the path plus \<^verbatim>\<open>.html\<close> is ever asked
  for, whether it exists or not.
\<close>

theorem no_candidate_fall_through:
  assumes "cleanUrls (superstatic req)"
    and "hasTrailingSlash (request_originalPathname req)"
    and "trailingSlash (superstatic req) = Unspecified"
    and "provider (request_pathname req) = Inr None"
    and "provider (directory_index (request_pathname req)) = Inr None"
  shows "decide provider req = Inr Defer
    \<and> queries provider req =
        [request_pathname req, directory_index (request_pathname req), request_pathname req]
    \<and> removeTrailingString (request_pathname req) ''/'' @ ''.html''
        \<notin> set (queries provider req)
    \<and> request_pathname req @ ''.html'' \<notin> set (queries provider req)"
proof -
  have cand: "clean_candidate (trailingSlash (superstatic req))
        (hasTrailingSlash (request_originalPathname req)) (request_pathname req)
      = request_pathname req"
    using assms(2,3) by (simp add: clean_candidate_def)
  have absent: "provider (clean_candidate (trailingSlash (superstatic req))
        (hasTrailingSlash (request_originalPathname req)) (request_pathname req)) = Inr None"
    using assms(4) by (simp only: cand)
  have run: "files provider req =
      ([request_pathname req, directory_index (request_pathname req), request_pathname req],
       Inr Defer)"
    using files_candidate_absent [of provider req, OF assms(4,5,1) absent] by (simp only: cand)
  have sibling: "removeTrailingString p ''/'' @ ''.html'' \<noteq> p"
    "removeTrailingString p ''/'' @ ''.html'' \<noteq> directory_index p"
    "p @ ''.html'' \<noteq> directory_index p" for p
    by (auto simp: removeTrailingString_def asDirectoryIndex_def addTrailingSlash_def
          hasTrailingSlash_def endsWith_iff)
  show ?thesis
    using sibling by (simp add: decide_def queries_def run)
qed

theorem no_candidate_fall_through_witness:
  "site ''/foo/bar.html'' = Inr (Some ''foo/bar.html content'')
   \<and> decide site (plain_request ''/foo/bar/'' Unspecified True) = Inr Defer
   \<and> queries site (plain_request ''/foo/bar/'' Unspecified True)
       = [''/foo/bar/'', ''/foo/bar/index.html'', ''/foo/bar/'']"
  using no_candidate_fall_through [of "plain_request ''/foo/bar/'' Unspecified True" site]
  by (simp add: site_def plain_request_def helper_defs)

section \<open>Provider calls and failures\<close>

text \<open>The run of the handler is the provider calls of \<open>files\<close>, in order, followed by
  one responder call, which carries the outcome of \<open>files\<close>.\<close>

lemma files_handler_events:
  "files_handler provider req =
     (map Query (queries provider req) @ [response (decide provider req)], Fulfilled ())"
proof (cases "provider (request_pathname req)")
  case (Inl err)
  then show ?thesis
    by (simp add: queries_def decide_def response_def files_error [of provider req err] handler_defs)
next
  case first: (Inr r1)
  show ?thesis
  proof (cases r1)
    case (Some d)
    with first have a: "provider (request_pathname req) = Inr (Some d)" by simp
    show ?thesis
      unfolding queries_def decide_def files_found [of provider req d, OF a]
      using a by (simp add: response_def handler_defs removeTrailingString_def)
  next
    case None
    with first have a: "provider (request_pathname req) = Inr None" by simp
    show ?thesis
    proof (cases "provider (directory_index (request_pathname req))")
      case (Inl err)
      show ?thesis
        unfolding queries_def decide_def files_index_error [of provider req err, OF a Inl]
        using a Inl by (simp add: response_def handler_defs)
    next
      case second: (Inr r2)
      show ?thesis
      proof (cases r2)
        case (Some d)
        with second have b: "provider (directory_index (request_pathname req)) = Inr (Some d)"
          by simp
        show ?thesis
          unfolding queries_def decide_def files_index_found [of provider req d, OF a b]
          using a b by (simp add: response_def handler_defs)
      next
        case None
        with second have b: "provider (directory_index (request_pathname req)) = Inr None"
          by simp
        show ?thesis
        proof (cases "cleanUrls (superstatic req)")
          case False
          show ?thesis
            unfolding queries_def decide_def files_no_clean_urls [of provider req, OF a b False]
            using a b False by (simp add: response_def handler_defs)
        next
          case True
          show ?thesis
          proof (cases "provider (clean_candidate (trailingSlash (superstatic req))
            (hasTrailingSlash (request_originalPathname req)) (request_pathname req))")
            case (Inl err)
            show ?thesis
              unfolding queries_def decide_def
                files_candidate_error [of provider req err, OF a b True Inl]
              using a b True Inl by (simp add: response_def handler_defs clean_candidate_def)
          next
            case third: (Inr r3)
            show ?thesis
            proof (cases r3)
              case None
              with third have c: "provider (clean_candidate (trailingSlash (superstatic req))
                (hasTrailingSlash (request_originalPathname req)) (request_pathname req)) = Inr None"
                by simp
              show ?thesis
                unfolding queries_def decide_def
                  files_candidate_absent [of provider req, OF a b True c]
                using a b True c by (simp add: response_def handler_defs clean_candidate_def)
            next
              case (Some d)
              with third have c: "provider (clean_candidate (trailingSlash (superstatic req))
                (hasTrailingSlash (request_originalPathname req)) (request_pathname req))
                 = Inr (Some d)"
                by simp
              show ?thesis
                unfolding queries_def decide_def
                  files_candidate_found [of provider req d, OF a b True c]
                using a b True c by (simp add: response_def handler_defs clean_candidate_def)
            qed
          qed
        qed
      qed
    qed
  qed
qed

lemma provider_calls_queries [simp]:
  "provider_calls (map Query paths @ events) = paths @ provider_calls events"
  by (induction paths) simp_all

lemma responder_calls_queries [simp]:
  "responder_calls (map Query paths @ events) = responder_calls events"
  by (induction paths) simp_all

text \<open>
  Claim C8 (totality and error atomicity).  Every run of the handler calls exactly one
  responder, never none and never more than one.  When no provider call of the run
  fails, that call carries a decision.  When a provider call fails, the one responder
  call is \<^verbatim>\<open>handleError\<close> with the error of that call, unchanged, and no decision is
  produced; nothing but provider calls comes before it; the failing call is the last
  provider call of the run, and its path was not asked for before.
\<close>

theorem totality_and_error_atomicity:
  "(\<exists>r. responder_calls (fst (files_handler provider req)) = [r])
   \<and> ((\<forall>path \<in> set (provider_calls (fst (files_handler provider req))).
          \<forall>err. provider path \<noteq> Inl err)
      \<longrightarrow> (\<exists>d. responder_calls (fst (files_handler provider req)) = [Inr d]))
   \<and> (\<forall>path err. path \<in> set (provider_calls (fst (files_handler provider req)))
          \<and> provider path = Inl err \<longrightarrow>
         responder_calls (fst (files_handler provider req)) = [Inl err]
         \<and> fst (files_handler provider req)
             = map Query (provider_calls (fst (files_handler provider req)))
                 @ [RespondError err]
         \<and> (\<exists>before. provider_calls (fst (files_handler provider req)) = before @ [path]
               \<and> path \<notin> set before))"
  by (cases provider req rule: files_cases)
    (auto simp add: files_handler_events queries_def decide_def response_def)

theorem totality_and_error_atomicity_witness:
  "fst (files_handler site (plain_request ''/foo'' Unspecified False))
     = [Query ''/foo'', Query ''/foo/index.html'', Respond (Redirect ''/foo/'')]
   \<and> (\<exists>d. responder_calls (fst (files_handler site (plain_request ''/foo'' Unspecified False)))
          = [Inr d])
   \<and> fst (files_handler failing_site (plain_request ''/foo'' Unspecified True))
     = [Query ''/foo'', Query ''/foo/index.html'', RespondError ''EIO'']
   \<and> responder_calls (fst (files_handler failing_site (plain_request ''/foo'' Unspecified True)))
     = [Inl ''EIO'']"
proof -
  have run: "fst (files_handler site (plain_request ''/foo'' Unspecified False))
     = [Query ''/foo'', Query ''/foo/index.html'', Respond (Redirect ''/foo/'')]"
    by (simp add: handler_defs site_def plain_request_def helper_defs)
  have a: "\<exists>d. responder_calls (fst (files_handler site (plain_request ''/foo'' Unspecified False)))
          = [Inr d]"
    using totality_and_error_atomicity [of site "plain_request ''/foo'' Unspecified False"]
    by (simp add: site_def)
  have failing: "fst (files_handler failing_site (plain_request ''/foo'' Unspecified True))
     = [Query ''/foo'', Query ''/foo/index.html'', RespondError ''EIO'']"
    by (simp add: handler_defs failing_site_def plain_request_def helper_defs)
  have f: "failing_site ''/foo/index.html'' = Inl ''EIO''"
    by (simp add: failing_site_def)
  have "''/foo/index.html''
      \<in> set (provider_calls (fst (files_handler failing_site
            (plain_request ''/foo'' Unspecified True))))"
    by (simp add: failing)
  with f totality_and_error_atomicity [of failing_site
      "plain_request ''/foo'' Unspecified True"]
  have b: "responder_calls (fst (files_handler failing_site
      (plain_request ''/foo'' Unspecified True))) = [Inl ''EIO'']"
    by blast
  show ?thesis by (intro conjI run a failing b)
qed



section \<open>Slashes and redirect locations\<close>



text \<open>
  Claim C7 (empty redirect path).  \<^verbatim>\<open>normalizeRedirectPath\<close> is applied to the path
  joined with the search, so an empty path with a search is left as it is: with
  \<^verbatim>\<open>cleanUrls\<close> enabled and \<^verbatim>\<open>index.html\<close> in the root, the request
  \<^verbatim>\<open>/index.html?x=1\<close> is redirected to \<^verbatim>\<open>?x=1\<close>, a location whose path is empty.
\<close>

theorem empty_path_redirect_with_query:
  "decide root_site (plain_request ''/index.html?x=1'' Unspecified True)
     = Inr (Redirect ''?x=1'')
   \<and> url_pathname ''?x=1'' = []"
  by (simp add: decide_def middleware_defs root_site_def plain_request_def helper_defs)

section \<open>Resolving the target of a redirect\<close>

lemma endsWith_last: "endsWith x t \<Longrightarrow> t \<noteq> [] \<Longrightarrow> x \<noteq> [] \<and> last x = last t"
  by (auto simp: endsWith_iff)

lemma hasTrailingSlash_iff: "hasTrailingSlash x \<longleftrightarrow> (\<exists>y. x = y @ ''/'')"
  by (simp add: hasTrailingSlash_def endsWith_iff)

lemma hasTrailingSlash_snoc [simp]: "hasTrailingSlash (x @ ''/'')"
  by (simp add: hasTrailingSlash_def)

lemma hasTrailingSlash_Nil [simp]: "\<not> hasTrailingSlash []"
  by (simp add: hasTrailingSlash_def endsWith_def)

lemma hasTrailingSlash_root [simp]: "hasTrailingSlash ''/''"
  by (simp add: hasTrailingSlash_def endsWith_def)

lemma not_endsWith_html_slash [simp]: "\<not> endsWith (x @ ''/'') ''.html''"
  using endsWith_last [of "x @ ''/''" "''.html''"] by auto

lemma not_hasTrailingSlash_html [simp]: "\<not> hasTrailingSlash (x @ ''.html'')"
  using endsWith_last [of "x @ ''.html''" "''/''"] by (auto simp: hasTrailingSlash_def)

lemma not_hasTrailingSlash_index [simp]: "\<not> hasTrailingSlash (x @ ''/index'')"
  using endsWith_last [of "x @ ''/index''" "''/''"] by (auto simp: hasTrailingSlash_def)

lemma collapsed_before_slash:
  "slash_collapsed (x @ CHR ''/'' # y) \<Longrightarrow> \<not> hasTrailingSlash x"
  using slash_collapsed_no_double [of x] slash_collapsed_prefix [of "x @ ''/''" y]
  by (simp add: hasTrailingSlash_def)

lemma directory_index_slash [simp]: "directory_index (x @ ''/'') = x @ ''/index.html''"
  by (simp add: asDirectoryIndex_def addTrailingSlash_def)

lemma directory_index_no_slash:
  "\<not> hasTrailingSlash x \<Longrightarrow> directory_index x = x @ ''/index.html''"
  by (simp add: asDirectoryIndex_def addTrailingSlash_def)

lemma html_index_eq: "x @ ''.html'' = z @ ''/index.html'' \<longleftrightarrow> x = z @ ''/index''"
proof -
  have "z @ ''/index.html'' = (z @ ''/index'') @ ''.html''" by simp
  then show ?thesis by (simp only: append_same_eq)
qed

lemma endsWith_html_index: "endsWith (x @ ''.html'') ''/index.html'' \<longleftrightarrow> endsWith x ''/index''"
  by (simp add: endsWith_iff html_index_eq)

lemma url_pathname_location:
  assumes "CHR ''?'' \<notin> set b" and "s = [] \<or> (\<exists>r. s = CHR ''?'' # r)"
  shows "url_pathname (normalizeRedirectPath (b @ s)) = (if b = [] \<and> s = [] then ''/'' else b)"
proof (cases "b = [] \<and> s = []")
  case True
  then show ?thesis by (simp add: normalizeRedirectPath_def url_pathname_def)
next
  case False
  then have "normalizeRedirectPath (b @ s) = b @ s"
    by (simp add: normalizeRedirectPath_def)
  with False url_pathname_append [OF assms] show ?thesis by auto
qed

lemma collapsed_snoc: "slash_collapsed p \<Longrightarrow> \<not> hasTrailingSlash p \<Longrightarrow> slash_collapsed (p @ ''/'')"
  by (simp add: slash_collapsed_snoc hasTrailingSlash_def)

lemma no_query_take: "CHR ''?'' \<notin> set x \<Longrightarrow> CHR ''?'' \<notin> set (removeTrailingString x t)"
  by (auto simp: removeTrailingString_def dest: in_set_takeD)

lemma no_query_addTrailingSlash:
  "CHR ''?'' \<notin> set x \<Longrightarrow> CHR ''?'' \<notin> set (addTrailingSlash x)"
  by (simp add: addTrailingSlash_def)

lemma mounted_atE:
  assumes "mounted_at basePath req"
  obtains rest where "request_originalPathname req = basePath @ rest"
    and "rest = [] \<or> hd rest = CHR ''/''"
    and "request_pathname req = (if rest = [] then ''/'' else rest)"
    and "\<not> hasTrailingSlash basePath"
proof -
  let ?rest = "drop (length basePath) (request_originalPathname req)"
  have "request_originalPathname req = basePath @ ?rest"
    using assms by (metis append_take_drop_id mounted_at_def)
  with assms show ?thesis
    using that [of ?rest] by (simp add: mounted_at_def Let_def)
qed

lemma no_redirect_with_slash:
  assumes "hasTrailingSlash (request_originalPathname r)"
    and "trailingSlash (superstatic r) \<noteq> ForceAbsent"
    and "trailingSlash (superstatic r) = ForcePresent \<Longrightarrow> cleanUrls (superstatic r) \<Longrightarrow>
           (\<exists>d. provider (directory_index (request_pathname r)) = Inr (Some d))
           \<or> \<not> endsWith (removeTrailingString (request_originalPathname r) ''/'') ''/index''"
  shows "decide provider r \<noteq> Inr (Redirect loc)"
proof
  assume "decide provider r = Inr (Redirect loc)"
  then show False
  proof (cases rule: redirect_cases)
    case (exact d)
    with assms(1) show ?thesis
      using endsWith_last [of "request_originalPathname r" "''.html''"]
        endsWith_last [of "request_originalPathname r" "''/''"]
      by (auto simp: hasTrailingSlash_def)
  next
    case (index_add d)
    with assms(1) show ?thesis by simp
  next
    case (index_remove d)
    with assms(2) show ?thesis by simp
  next
    case (candidate_remove d)
    with assms(2) show ?thesis by simp
  next
    case (candidate_add d)
    with assms(1) show ?thesis by simp
  next
    case (candidate_index d)
    have nohtml: "\<not> endsWith (request_originalPathname r) ''/index.html''"
      using assms(1) endsWith_last [of "request_originalPathname r" "''/index.html''"]
        endsWith_last [of "request_originalPathname r" "''/''"]
      by (auto simp: hasTrailingSlash_def)
    show ?thesis
    proof (cases "trailingSlash (superstatic r)")
      case Unspecified
      with candidate_index(7) assms(1) nohtml show ?thesis
        by (simp add: clean_candidate_def)
    next
      case ForceAbsent
      with assms(2) show ?thesis by simp
    next
      case ForcePresent
      with candidate_index(7) assms(1)
      have "endsWith (removeTrailingString (request_originalPathname r) ''/'' @ ''.html'')
          ''/index.html''"
        by (simp add: clean_candidate_def)
      then have "endsWith (removeTrailingString (request_originalPathname r) ''/'') ''/index''"
        by (auto simp: endsWith_iff)
      with assms(3) [OF ForcePresent candidate_index(3)] candidate_index(2)
      show ?thesis by auto
    qed
  qed
qed

lemma no_redirect_index_found:
  assumes "trailingSlash (superstatic r) \<noteq> ForcePresent"
    and "trailingSlash (superstatic r) = Unspecified \<Longrightarrow> cleanUrls (superstatic r)"
    and "provider (directory_index (request_pathname r)) = Inr (Some d)"
    and "\<And>e. cleanUrls (superstatic r) \<Longrightarrow> provider (request_pathname r) = Inr (Some e)
           \<Longrightarrow> \<not> endsWith (request_originalPathname r) ''.html''"
    and "hasTrailingSlash (request_originalPathname r) \<Longrightarrow> request_pathname r = ''/''"
  shows "decide provider r \<noteq> Inr (Redirect loc)"
proof
  assume "decide provider r = Inr (Redirect loc)"
  then show False
  proof (cases rule: redirect_cases)
    case (exact e)
    with assms(4) show ?thesis by blast
  next
    case (index_add e)
    with assms(1,2) show ?thesis by auto
  next
    case (index_remove e)
    with assms(5) show ?thesis by simp
  next
    case (candidate_remove e)
    with assms(3) show ?thesis by simp
  next
    case (candidate_add e)
    with assms(3) show ?thesis by simp
  next
    case (candidate_index e)
    with assms(3) show ?thesis by simp
  qed
qed

lemma no_redirect_plain_path:
  assumes "cleanUrls (superstatic r)"
    and "trailingSlash (superstatic r) \<noteq> ForcePresent"
    and "\<not> hasTrailingSlash (request_originalPathname r)"
    and "\<not> endsWith (request_originalPathname r) ''/index''"
    and "\<And>e. provider (request_pathname r) = Inr (Some e)
           \<Longrightarrow> \<not> endsWith (request_originalPathname r) ''.html''"
  shows "decide provider r \<noteq> Inr (Redirect loc)"
proof
  assume "decide provider r = Inr (Redirect loc)"
  then show False
  proof (cases rule: redirect_cases)
    case (exact e)
    with assms(5) show ?thesis by blast
  next
    case (index_add e)
    with assms(1,2) show ?thesis by auto
  next
    case (index_remove e)
    with assms(3) show ?thesis by simp
  next
    case (candidate_remove e)
    with assms(3) show ?thesis by simp
  next
    case (candidate_add e)
    with assms(2) show ?thesis by simp
  next
    case (candidate_index e)
    with assms(3,4) show ?thesis
      by (auto simp: clean_candidate_def endsWith_iff)
  qed
qed

lemma mounted_strip: "base @ rest = x @ suf \<Longrightarrow> base @ rest' = x \<Longrightarrow> rest = rest' @ suf"
  by auto

lemma mounted_strip_slash:
  assumes "base @ rest = x @ suf" and "base @ rest' = x @ ''/''"
    and "\<not> hasTrailingSlash base"
  obtains r where "rest' = r @ ''/''" and "rest = r @ suf"
proof -
  have "rest' \<noteq> []"
    using assms(2,3) by (auto simp: hasTrailingSlash_def)
  then have "rest' = butlast rest' @ [last rest']" by simp
  moreover have "last rest' = CHR ''/''"
    using assms(2) \<open>rest' \<noteq> []\<close> by (metis last_appendR last_snoc)
  ultimately have r: "rest' = butlast rest' @ ''/''" by simp
  with assms(2) have "base @ butlast rest' = x"
    by (metis append_assoc append_same_eq)
  with assms(1) have "rest = butlast rest' @ suf" by auto
  with r show ?thesis using that by blast
qed


lemma hasTrailingSlash_addTrailingSlash [simp]: "hasTrailingSlash (addTrailingSlash x)"
  by (simp add: addTrailingSlash_def)

lemma mounted_rest_no_slash:
  "base @ rest = x \<Longrightarrow> \<not> hasTrailingSlash x \<Longrightarrow> \<not> hasTrailingSlash rest"
  by (auto simp: hasTrailingSlash_iff)

lemma mounted_root:
  "base @ rest = ''/'' \<Longrightarrow> \<not> hasTrailingSlash base \<Longrightarrow> base = [] \<and> rest = ''/''"
  by (cases base) auto

lemma directory_index_mounted:
  "\<not> hasTrailingSlash x \<Longrightarrow> directory_index (if x = [] then ''/'' else x) = x @ ''/index.html''"
  by (simp add: asDirectoryIndex_def addTrailingSlash_def)

lemma index_target:
  assumes "\<not> hasTrailingSlash base" and "base @ rest = x @ CHR ''/'' # t"
    and "slash_collapsed (base @ rest)"
    and "base @ rest' = (if x = [] then ''/'' else x)"
  obtains r where "rest = r @ CHR ''/'' # t"
    and "directory_index (if rest' = [] then ''/'' else rest') = r @ ''/index.html''"
    and "hasTrailingSlash (base @ rest') \<Longrightarrow> (if rest' = [] then ''/'' else rest') = ''/''"
proof (cases "x = []")
  case True
  with assms(4) have "base @ rest' = ''/''" by simp
  from mounted_root [OF this assms(1)] have b: "base = []" "rest' = ''/''" by simp_all
  with assms(2) True have "rest = [] @ CHR ''/'' # t" by simp
  moreover have "directory_index (if rest' = [] then ''/'' else rest') = [] @ ''/index.html''"
    using b by (simp add: asDirectoryIndex_def addTrailingSlash_def)
  moreover have "(if rest' = [] then ''/'' else rest') = ''/''" using b by simp
  ultimately show ?thesis using that by blast
next
  case False
  with assms(4) have x: "base @ rest' = x" by simp
  have "rest = rest' @ CHR ''/'' # t"
    using mounted_strip [OF assms(2) x] .
  moreover have nx: "\<not> hasTrailingSlash x"
    using assms(2,3) collapsed_before_slash [of x t] by simp
  then have "\<not> hasTrailingSlash rest'"
    using mounted_rest_no_slash [OF x] by simp
  then have "directory_index (if rest' = [] then ''/'' else rest') = rest' @ ''/index.html''"
    by (rule directory_index_mounted)
  moreover have "\<not> hasTrailingSlash (base @ rest')" using nx x by simp
  ultimately show ?thesis using that by blast
qed

lemma slash_target:
  assumes "\<not> hasTrailingSlash base" and "base @ rest = x @ suf" and "base @ rest' = x @ ''/''"
  obtains r where "rest = r @ suf"
    and "(if rest' = [] then ''/'' else rest') = r @ ''/''"
proof -
  from mounted_strip_slash [OF assms(2,3,1)]
  obtain r where r: "rest' = r @ ''/''" "rest = r @ suf" by blast
  then have "(if rest' = [] then ''/'' else rest') = r @ ''/''" by simp
  with r show ?thesis using that by blast
qed

section \<open>Redirect chains\<close>

text \<open>
  Claim C1 (no double redirect), as stated, fails: with \<^verbatim>\<open>cleanUrls\<close> enabled and the
  files \<^verbatim>\<open>foo.html\<close> and \<^verbatim>\<open>foo.html.html\<close>, the request \<^verbatim>\<open>/foo.html.html\<close> is
  redirected to \<^verbatim>\<open>/foo.html\<close>, and \<^verbatim>\<open>/foo.html\<close> is redirected to \<^verbatim>\<open>/foo\<close>: each
  resolution strips one \<^verbatim>\<open>.html\<close>.
\<close>

theorem double_redirect_counterexample:
  "decide nested_site (plain_request ''/foo.html.html'' Unspecified True)
     = Inr (Redirect ''/foo.html'')
   \<and> decide nested_site (plain_request (url_pathname ''/foo.html'') Unspecified True)
     = Inr (Redirect ''/foo'')"
  by (simp add: decide_def middleware_defs nested_site_def plain_request_def helper_defs)

text \<open>
  With \<^verbatim>\<open>cleanUrls\<close> enabled and a trailing-slash policy, more requests are redirected
  twice.  Under \<open>ForceAbsent\<close>: \<^verbatim>\<open>/\<close> is redirected to itself when the provider holds
  \<^verbatim>\<open>.html\<close>; \<^verbatim>\<open>/a/index/\<close> is redirected to \<^verbatim>\<open>/a/index\<close> and then to
  \<^verbatim>\<open>/a\<close>; \<^verbatim>\<open>/a/.html\<close> is redirected to \<^verbatim>\<open>/a/\<close> and then to \<^verbatim>\<open>/a\<close>.  Under
  \<open>ForcePresent\<close>: \<^verbatim>\<open>/a/index/\<close> is redirected to \<^verbatim>\<open>/a\<close> and then to
  \<^verbatim>\<open>/a/\<close>; \<^verbatim>\<open>/a/index/.html\<close> is redirected to \<^verbatim>\<open>/a/index/\<close> and then to
  \<^verbatim>\<open>/a\<close>.
\<close>

lemma redirect_chains:
  "decide chain_site (plain_request ''/'' ForceAbsent True) = Inr (Redirect ''/'')
   \<and> decide chain_site (plain_request ''/a/index/'' ForceAbsent True)
       = Inr (Redirect ''/a/index'')
   \<and> decide chain_site (plain_request ''/a/index'' ForceAbsent True) = Inr (Redirect ''/a'')
   \<and> decide chain_site (plain_request ''/a/.html'' ForceAbsent True) = Inr (Redirect ''/a/'')
   \<and> decide chain_site (plain_request ''/a/'' ForceAbsent True) = Inr (Redirect ''/a'')
   \<and> decide chain_site (plain_request ''/a/index/'' ForcePresent True) = Inr (Redirect ''/a'')
   \<and> decide chain_site (plain_request ''/a'' ForcePresent True) = Inr (Redirect ''/a/'')
   \<and> decide chain_site (plain_request ''/a/index/.html'' ForcePresent True)
       = Inr (Redirect ''/a/index/'')"
  by (simp add: decide_def middleware_defs chain_site_def plain_request_def helper_defs)

text \<open>
  Claim C1, amended.  The handler is mounted under a base path; a request is resolved to
  a redirect, and the location is requested again through the same mount, under the same
  configuration and provider.  Then the second resolution is not a redirect, provided
  that:
  \<^item> the location has a path (when the path that lines 53, 89, 136 or 169 compute is
    empty and the request has a search, the location is the search alone: claim C7);
  \<^item> with \<^verbatim>\<open>cleanUrls\<close> enabled, the path of the location is not content whose
    name ends in \<^verbatim>\<open>.html\<close>;
  \<^item> with \<^verbatim>\<open>cleanUrls\<close> enabled under \<open>ForceAbsent\<close>, the original path of the
    request is not \<^verbatim>\<open>/\<close> and ends neither in \<^verbatim>\<open>/index/\<close> nor in \<^verbatim>\<open>/.html\<close>;
  \<^item> with \<^verbatim>\<open>cleanUrls\<close> enabled under \<open>ForcePresent\<close>, the original path of the
    request ends neither in \<^verbatim>\<open>/index/\<close> nor in \<^verbatim>\<open>/index/.html\<close>.

  With \<^verbatim>\<open>cleanUrls\<close> disabled only the first proviso is left, and under
  \<open>Unspecified\<close> only the first two.
\<close>

theorem no_double_redirect:
  assumes "mounted_at basePath req" and "mounted_at basePath req'"
    and "superstatic req' = superstatic req"
    and "decide provider req = Inr (Redirect location)"
    and "url_pathname (originalUrl req') = url_pathname location"
    and "url_pathname location \<noteq> []"
    and "cleanUrls (superstatic req) \<longrightarrow> endsWith (url_pathname location) ''.html''
           \<longrightarrow> (\<forall>d. provider (request_pathname req') \<noteq> Inr (Some d))"
    and "cleanUrls (superstatic req) \<and> trailingSlash (superstatic req) = ForceAbsent
           \<longrightarrow> request_originalPathname req \<noteq> ''/''
               \<and> \<not> endsWith (request_originalPathname req) ''/index/''
               \<and> \<not> endsWith (request_originalPathname req) ''/.html''"
    and "cleanUrls (superstatic req) \<and> trailingSlash (superstatic req) = ForcePresent
           \<longrightarrow> \<not> endsWith (request_originalPathname req) ''/index/''
               \<and> \<not> endsWith (request_originalPathname req) ''/index/.html''"
  shows "decide provider req' \<noteq> Inr (Redirect location')"
proof -
  define ts where "ts = trailingSlash (superstatic req)"
  define cu where "cu = cleanUrls (superstatic req)"
  define op where "op = request_originalPathname req"
  define s where "s = request_search req"
  define op' where "op' = request_originalPathname req'"
  define p where "p = request_pathname req"
  define p' where "p' = request_pathname req'"
  from assms(1) obtain rest where rest: "op = basePath @ rest"
    and p: "p = (if rest = [] then ''/'' else rest)"
    and base: "\<not> hasTrailingSlash basePath"
    unfolding op_def p_def by (rule mounted_atE)
  from assms(2) obtain rest' where rest': "op' = basePath @ rest'"
    and p': "p' = (if rest' = [] then ''/'' else rest')"
    unfolding op'_def p'_def by (rule mounted_atE)
  have sc: "slash_collapsed op"
    unfolding op_def by (rule slash_collapsed_normalize)
  have nq: "CHR ''?'' \<notin> set op"
    unfolding op_def by (rule normalized_no_query)
  have ss: "s = [] \<or> (\<exists>r. s = CHR ''?'' # r)"
    unfolding s_def by (rule url_search_cases)
  have cfg: "trailingSlash (superstatic req') = ts" "cleanUrls (superstatic req') = cu"
    using assms(3) by (simp_all add: ts_def cu_def)
  have again: "op' = normalizeMultiSlashes (url_pathname location)"
    using assms(5) by (simp add: op'_def)
  have target: "op' = (if b = [] then ''/'' else b)"
    if "location = normalizeRedirectPath (b @ s)" "CHR ''?'' \<notin> set b" "slash_collapsed b" for b
  proof -
    have "url_pathname location = (if b = [] \<and> s = [] then ''/'' else b)"
      unfolding that(1) by (rule url_pathname_location [OF that(2) ss])
    with assms(6) have "url_pathname location = (if b = [] then ''/'' else b)"
      by (auto split: if_splits)
    moreover have "slash_collapsed (if b = [] then ''/'' else b)"
      using that(3) by simp
    ultimately show ?thesis using again by (simp add: normalize_collapsed)
  qed
  have same: "url_pathname location = op'"
  proof -
    from redirect_location_collapsed [OF assms(4)]
    obtain b where b: "slash_collapsed b" "location = normalizeRedirectPath (b @ s)"
      by (auto simp: s_def)
    have "CHR ''?'' \<notin> set (url_pathname location)" by (rule url_pathname_no_query)
    have "slash_collapsed (url_pathname location)"
    proof (cases "b = [] \<and> s = []")
      case True
      with b show ?thesis by (simp add: normalizeRedirectPath_def url_pathname_def)
    next
      case False
      with b have "location = b @ s" by (simp add: normalizeRedirectPath_def)
      then have "url_pathname location = takeWhile (\<lambda>c. c \<noteq> CHR ''?'') b
          \<or> url_pathname location = b @ takeWhile (\<lambda>c. c \<noteq> CHR ''?'') s"
        by (auto simp: url_pathname_def takeWhile_append)
      moreover have "takeWhile (\<lambda>c. c \<noteq> CHR ''?'') s = []"
        using ss by auto
      moreover have "slash_collapsed (takeWhile (\<lambda>c. c \<noteq> CHR ''?'') b)"
        using b(1) slash_collapsed_prefix [of "takeWhile (\<lambda>c. c \<noteq> CHR ''?'') b"
            "dropWhile (\<lambda>c. c \<noteq> CHR ''?'') b"] by simp
      ultimately show ?thesis using b(1) by auto
    qed
    then show ?thesis using again by (simp add: normalize_collapsed)
  qed
  have html: "\<not> endsWith (request_originalPathname req') ''.html''"
    if "cleanUrls (superstatic req')" "provider (request_pathname req') = Inr (Some e)" for e
    using assms(7) that same by (auto simp: cfg cu_def op'_def)
  have absent: "op \<noteq> ''/''" "\<not> endsWith op ''/index/''" "\<not> endsWith op ''/.html''"
    if "cu" "ts = ForceAbsent"
    using assms(8) that by (simp_all add: cu_def ts_def op_def)
  have present: "\<not> endsWith op ''/index/''" "\<not> endsWith op ''/index/.html''"
    if "cu" "ts = ForcePresent"
    using assms(9) that by (simp_all add: cu_def ts_def op_def)
  from assms(4) show ?thesis
  proof (cases rule: redirect_cases)
    case (exact d)
    then have cu: "cu" and found: "provider p = Inr (Some d)" and h: "endsWith op ''.html''"
      and loc: "location = normalizeRedirectPath
         ((if ts = ForcePresent
           then addTrailingSlash (removeTrailingString (removeTrailingString op ''.html'') ''/index'')
           else removeTrailingString (removeTrailingString op ''.html'') ''/index'') @ s)"
      by (simp_all add: cu_def ts_def op_def s_def p_def)
    from h obtain stem where stem: "op = stem @ ''.html''"
      by (auto simp: endsWith_iff)
    have scs: "slash_collapsed stem" and nqs: "CHR ''?'' \<notin> set stem"
      using sc nq slash_collapsed_prefix [of stem "''.html''"] by (simp_all add: stem)
    show ?thesis
    proof (cases "ts = ForcePresent")
      case True
      define b where "b = addTrailingSlash (removeTrailingString stem ''/index'')"
      have "location = normalizeRedirectPath (b @ s)"
        using loc True by (simp add: stem b_def)
      moreover have "CHR ''?'' \<notin> set b" "slash_collapsed b"
        unfolding b_def using nqs scs
        by (simp_all add: no_query_addTrailingSlash no_query_take addTrailingSlash_collapsed
              removeTrailingString_collapsed)
      moreover have "b \<noteq> []" by (auto simp: b_def addTrailingSlash_def)
      ultimately have t: "op' = b" using target [of b] by simp
      show ?thesis
      proof (rule no_redirect_with_slash [where provider = provider])
        show "hasTrailingSlash (request_originalPathname req')"
          using t by (simp add: op'_def [symmetric] b_def)
        show "trailingSlash (superstatic req') \<noteq> ForceAbsent"
          using True by (simp add: cfg)
        show "(\<exists>d. provider (directory_index (request_pathname req')) = Inr (Some d))
           \<or> \<not> endsWith (removeTrailingString (request_originalPathname req') ''/'') ''/index''"
        proof (cases "endsWith stem ''/index''")
          case True
          then obtain x where x: "stem = x @ ''/index''" by (auto simp: endsWith_iff)
          have "\<not> hasTrailingSlash x"
            using scs collapsed_before_slash [of x "''index''"] by (simp add: x)
          then have "basePath @ rest' = x @ ''/''"
            using t rest' by (simp add: b_def x addTrailingSlash_def)
          moreover have "basePath @ rest = x @ ''/index.html''"
            using rest by (simp add: stem x)
          ultimately obtain r where "rest = r @ ''/index.html''"
            and "(if rest' = [] then ''/'' else rest') = r @ ''/''"
            using slash_target [OF base, of rest x "''/index.html''" rest'] by blast
          then have "p = r @ ''/index.html''" and "p' = r @ ''/''"
            using p p' by simp_all
          with found show ?thesis by (simp add: p'_def)
        next
          case False
          then have bs: "b = addTrailingSlash stem"
            by (simp add: b_def removeTrailingString_def)
          have "\<not> endsWith (removeTrailingString b ''/'') ''/index''"
          proof (cases "hasTrailingSlash stem")
            case True
            then obtain y where y: "stem = y @ ''/''" by (auto simp: hasTrailingSlash_iff)
            have "\<not> endsWith op ''/index/.html''"
              using present(2) [OF cu \<open>ts = ForcePresent\<close>] .
            then have "\<not> endsWith y ''/index''"
              by (auto simp: endsWith_iff stem y)
            then show ?thesis
              by (simp add: bs y addTrailingSlash_def)
          next
            case noslash: False
            with False show ?thesis
              by (simp add: bs addTrailingSlash_def)
          qed
          then show ?thesis using t by (simp add: op'_def)
        qed
      qed
    next
      case False
      define b where "b = removeTrailingString stem ''/index''"
      have locb: "location = normalizeRedirectPath (b @ s)"
        using loc False by (simp add: stem b_def)
      have nqb: "CHR ''?'' \<notin> set b" and scb: "slash_collapsed b"
        unfolding b_def using nqs scs
        by (simp_all add: no_query_take removeTrailingString_collapsed)
      have t: "op' = (if b = [] then ''/'' else b)"
        using target [OF locb nqb scb] .
      show ?thesis
      proof (cases "endsWith stem ''/index''")
        case True
        then obtain x where x: "stem = x @ ''/index''" by (auto simp: endsWith_iff)
        have bx: "b = x" by (simp add: b_def x)
        have "basePath @ rest = x @ CHR ''/'' # ''index.html''"
          using rest by (simp add: stem x)
        moreover have "slash_collapsed (basePath @ rest)"
          using sc by (simp add: rest)
        moreover have "basePath @ rest' = (if x = [] then ''/'' else x)"
          using t rest' by (simp add: bx)
        ultimately obtain r where r: "rest = r @ CHR ''/'' # ''index.html''"
          and i: "directory_index (if rest' = [] then ''/'' else rest') = r @ ''/index.html''"
          and root: "hasTrailingSlash (basePath @ rest')
            \<Longrightarrow> (if rest' = [] then ''/'' else rest') = ''/''"
          using index_target [OF base, of rest x "''index.html''" rest'] by blast
        have "p = r @ ''/index.html''" using p r by simp
        with found i have "provider (directory_index (request_pathname req')) = Inr (Some d)"
          by (simp add: p' p'_def [symmetric])
        moreover have "hasTrailingSlash (request_originalPathname req')
            \<Longrightarrow> request_pathname req' = ''/''"
          using root by (simp add: op'_def [symmetric] p'_def [symmetric] rest' p')
        ultimately show ?thesis
          using no_redirect_index_found [where provider = provider and r = req' and d = d]
            False cu html by (simp add: cfg)
      next
        case noindex: False
        then have bs: "b = stem" by (simp add: b_def removeTrailingString_def)
        have "stem \<noteq> []"
        proof
          assume e: "stem = []"
          with t bs have "basePath @ rest' = ''/''" using rest' by simp
          from mounted_root [OF this base] have "basePath = []" by simp
          with rest e stem have "rest = ''.html''" by simp
          moreover from assms(1) have "rest = [] \<or> hd rest = CHR ''/''"
            using rest \<open>basePath = []\<close> by (auto simp: mounted_at_def Let_def op_def)
          ultimately show False by simp
        qed
        with t bs have t': "op' = stem" by simp
        show ?thesis
        proof (cases "hasTrailingSlash stem")
          case True
          have "ts \<noteq> ForceAbsent"
          proof
            assume "ts = ForceAbsent"
            from absent(3) [OF cu this] True show False
              by (auto simp: stem hasTrailingSlash_iff endsWith_iff)
          qed
          then show ?thesis
            using no_redirect_with_slash [where provider = provider and r = req'] True False
            by (simp add: cfg op'_def [symmetric] t')
        next
          case noslash: False
          show ?thesis
            using no_redirect_plain_path [where provider = provider and r = req']
              cu False noslash noindex html
            by (simp add: cfg op'_def [symmetric] t')
        qed
      qed
    qed
  next
    case (index_add d)
    then have noslash: "\<not> hasTrailingSlash op" and ts: "ts \<noteq> ForceAbsent"
      and found: "provider (directory_index p) = Inr (Some d)"
      and loc: "location = addTrailingSlash op @ s"
      by (auto simp add: op_def s_def ts_def p_def)
    have "location = normalizeRedirectPath ((op @ ''/'') @ s)"
      using loc noslash normalizeRedirectPath_addTrailingSlash [of op s]
      by (simp add: addTrailingSlash_def)
    moreover have "CHR ''?'' \<notin> set (op @ ''/'')" using nq by simp
    moreover have "slash_collapsed (op @ ''/'')" using sc noslash by (rule collapsed_snoc)
    ultimately have t: "op' = op @ ''/''" using target [of "op @ ''/''"] by simp
    then have "basePath @ rest' = op @ ''/''" using rest' by simp
    moreover have "basePath @ rest = op @ []" using rest by simp
    ultimately obtain r where "rest = r @ []"
      and r: "(if rest' = [] then ''/'' else rest') = r @ ''/''"
      using slash_target [OF base, of rest op "[]" rest'] by blast
    then have "\<not> hasTrailingSlash r" and pr: "p = (if r = [] then ''/'' else r)"
      using noslash rest p mounted_rest_no_slash [of basePath rest op] by simp_all
    then have "directory_index p = r @ ''/index.html''"
      using directory_index_mounted [of r] by simp
    with found r have "provider (directory_index (request_pathname req')) = Inr (Some d)"
      by (simp add: p'_def [symmetric] p')
    then show ?thesis
      using no_redirect_with_slash [where provider = provider and r = req'] ts
      by (auto simp add: cfg op'_def [symmetric] t)
  next
    case (index_remove d)
    then have ts: "ts = ForceAbsent" and slash: "hasTrailingSlash op" and root: "p \<noteq> ''/''"
      and found: "provider (directory_index p) = Inr (Some d)"
      and loc: "location = normalizeRedirectPath (removeTrailingSlash op @ s)"
      by (simp_all add: op_def s_def ts_def p_def)
    from slash obtain q where q: "op = q @ ''/''" by (auto simp: hasTrailingSlash_iff)
    have ne: "q \<noteq> []"
    proof
      assume "q = []"
      with q rest have "basePath @ rest = ''/''" by simp
      from mounted_root [OF this base] p root show False by simp
    qed
    have nqq: "CHR ''?'' \<notin> set q" using nq by (simp add: q)
    have scq: "slash_collapsed q"
      using sc slash_collapsed_prefix [of q "''/''"] by (simp add: q)
    have noslash: "\<not> hasTrailingSlash q"
      using sc collapsed_before_slash [of q "[]"] by (simp add: q)
    have "location = normalizeRedirectPath (q @ s)"
      using loc by (simp add: q removeTrailingSlash_def)
    from target [OF this nqq scq] ne have t: "op' = q" by simp
    then have x: "basePath @ rest' = q" using rest' by simp
    have r: "rest = rest' @ ''/''"
      using mounted_strip [of basePath rest q "''/''" rest'] rest q x by simp
    with p root have ne': "rest' \<noteq> []" by auto
    have "\<not> hasTrailingSlash rest'"
      using mounted_rest_no_slash [OF x noslash] .
    then have "directory_index p' = rest' @ ''/index.html''"
      using ne' p' by (simp add: directory_index_no_slash)
    moreover have "directory_index p = rest' @ ''/index.html''"
      using p r by simp
    ultimately have "provider (directory_index (request_pathname req')) = Inr (Some d)"
      using found by (simp add: p'_def)
    then show ?thesis
      using no_redirect_index_found [where provider = provider and r = req' and d = d]
        ts noslash html
      by (simp add: cfg op'_def [symmetric] t)
  next
    case (candidate_remove d)
    then have cu: "cu" and ts: "ts = ForceAbsent" and slash: "hasTrailingSlash op"
      and loc: "location = normalizeRedirectPath (removeTrailingSlash op @ s)"
      by (simp_all add: op_def s_def ts_def cu_def)
    from slash obtain q where q: "op = q @ ''/''" by (auto simp: hasTrailingSlash_iff)
    have ne: "q \<noteq> []" using absent(1) [OF cu ts] by (auto simp: q)
    have nqq: "CHR ''?'' \<notin> set q" using nq by (simp add: q)
    have scq: "slash_collapsed q"
      using sc slash_collapsed_prefix [of q "''/''"] by (simp add: q)
    have noslash: "\<not> hasTrailingSlash q"
      using sc collapsed_before_slash [of q "[]"] by (simp add: q)
    have noindex: "\<not> endsWith q ''/index''"
      using absent(2) [OF cu ts] by (auto simp: q endsWith_iff)
    have "location = normalizeRedirectPath (q @ s)"
      using loc by (simp add: q removeTrailingSlash_def)
    from target [OF this nqq scq] ne have t: "op' = q" by simp
    show ?thesis
      using no_redirect_plain_path [where provider = provider and r = req']
        cu ts noslash noindex html
      by (simp add: cfg op'_def [symmetric] t)
  next
    case (candidate_add d)
    then have cu: "cu" and ts: "ts = ForcePresent" and noslash: "\<not> hasTrailingSlash op"
      and found: "provider (p @ ''.html'') = Inr (Some d)"
      and loc: "location = addTrailingSlash (removeTrailingString op ''/index'') @ s"
      by (simp_all add: op_def s_def ts_def cu_def p_def clean_candidate_def)
    define b where "b = addTrailingSlash (removeTrailingString op ''/index'')"
    have "location = normalizeRedirectPath (b @ s)"
      using loc normalizeRedirectPath_addTrailingSlash by (simp add: b_def)
    moreover have "CHR ''?'' \<notin> set b" "slash_collapsed b"
      unfolding b_def using nq sc
      by (simp_all add: no_query_addTrailingSlash no_query_take addTrailingSlash_collapsed
            removeTrailingString_collapsed)
    moreover have "b \<noteq> []" by (auto simp: b_def addTrailingSlash_def)
    ultimately have t: "op' = b" using target [of b] by simp
    show ?thesis
    proof (rule no_redirect_with_slash [where provider = provider])
      show "hasTrailingSlash (request_originalPathname req')"
        using t by (simp add: op'_def [symmetric] b_def)
      show "trailingSlash (superstatic req') \<noteq> ForceAbsent"
        using ts by (simp add: cfg)
      show "(\<exists>d. provider (directory_index (request_pathname req')) = Inr (Some d))
         \<or> \<not> endsWith (removeTrailingString (request_originalPathname req') ''/'') ''/index''"
      proof (cases "endsWith op ''/index''")
        case True
        then obtain x where x: "op = x @ ''/index''" by (auto simp: endsWith_iff)
        have "\<not> hasTrailingSlash x"
          using sc collapsed_before_slash [of x "''index''"] by (simp add: x)
        then have "basePath @ rest' = x @ ''/''"
          using t rest' by (simp add: b_def x addTrailingSlash_def)
        moreover have "basePath @ rest = x @ ''/index''"
          using rest by (simp add: x)
        ultimately obtain r where "rest = r @ ''/index''"
          and "(if rest' = [] then ''/'' else rest') = r @ ''/''"
          using slash_target [OF base, of rest x "''/index''" rest'] by blast
        then have "p @ ''.html'' = r @ ''/index.html''" and "p' = r @ ''/''"
          using p p' by simp_all
        with found show ?thesis by (simp add: p'_def)
      next
        case False
        then have "b = op @ ''/''"
          using noslash by (simp add: b_def removeTrailingString_def addTrailingSlash_def)
        with False show ?thesis using t by (simp add: op'_def)
      qed
    qed
  next
    case (candidate_index d)
    then have cu: "cu" by (simp add: cu_def)
    show ?thesis
    proof (cases "hasTrailingSlash op")
      case False
      with candidate_index have ts: "ts \<noteq> ForcePresent"
        and found: "provider (p @ ''.html'') = Inr (Some d)"
        and idx: "endsWith op ''/index''"
        and loc: "location = normalizeRedirectPath
            (removeTrailingString (op @ ''.html'') ''/index.html'' @ s)"
        by (simp_all add: op_def [symmetric] s_def [symmetric] ts_def [symmetric]
              p_def [symmetric] clean_candidate_def endsWith_html_index)
      from idx obtain x where x: "op = x @ ''/index''" by (auto simp: endsWith_iff)
      have nqx: "CHR ''?'' \<notin> set x" using nq by (simp add: x)
      have scx: "slash_collapsed x"
        using sc slash_collapsed_prefix [of x "''/index''"] by (simp add: x)
      have "location = normalizeRedirectPath (x @ s)"
        using removeTrailingString_append [of x "''/index.html''"] by (simp add: loc x)
      from target [OF this nqx scx] have t: "op' = (if x = [] then ''/'' else x)" .
      have "basePath @ rest = x @ CHR ''/'' # ''index''"
        using rest by (simp add: x)
      moreover have "slash_collapsed (basePath @ rest)"
        using sc by (simp add: rest)
      moreover have "basePath @ rest' = (if x = [] then ''/'' else x)"
        using t rest' by simp
      ultimately obtain r where r: "rest = r @ CHR ''/'' # ''index''"
        and i: "directory_index (if rest' = [] then ''/'' else rest') = r @ ''/index.html''"
        and root: "hasTrailingSlash (basePath @ rest')
          \<Longrightarrow> (if rest' = [] then ''/'' else rest') = ''/''"
        using index_target [OF base, of rest x "''index''" rest'] by blast
      have "p @ ''.html'' = r @ ''/index.html''" using p r by simp
      with found i have "provider (directory_index (request_pathname req')) = Inr (Some d)"
        by (simp add: p' p'_def [symmetric])
      moreover have "hasTrailingSlash (request_originalPathname req')
          \<Longrightarrow> request_pathname req' = ''/''"
        using root by (simp add: op'_def [symmetric] p'_def [symmetric] rest' p')
      ultimately show ?thesis
        using no_redirect_index_found [where provider = provider and r = req' and d = d]
          ts cu html by (simp add: cfg)
    next
      case True
      then obtain q where q: "op = q @ ''/''" by (auto simp: hasTrailingSlash_iff)
      have nohtml: "\<not> endsWith op ''/index.html''"
        using endsWith_last [of op "''/index.html''"] by (auto simp: q)
      from True candidate_index have fp: "ts = ForcePresent"
        using nohtml
        by (cases ts) (simp_all add: op_def [symmetric] ts_def [symmetric] clean_candidate_def)
      with True candidate_index have "endsWith (q @ ''.html'') ''/index.html''"
        by (simp add: op_def [symmetric] ts_def [symmetric] clean_candidate_def q)
      then have "endsWith op ''/index/''"
        by (auto simp: endsWith_html_index endsWith_iff q)
      with present(1) [OF cu fp] show ?thesis by simp
    qed
  qed
qed

theorem no_double_redirect_witness:
  "decide site (plain_request ''/foo/bar.html?x=1'' Unspecified True)
     = Inr (Redirect ''/foo/bar?x=1'')
   \<and> (\<forall>l. decide site (plain_request ''/foo/bar?x=1'' Unspecified True) \<noteq> Inr (Redirect l))
   \<and> decide site (mounted_request ''/base/path'' ''/foo/?x=1'' ForceAbsent False)
     = Inr (Redirect ''/base/path/foo?x=1'')
   \<and> (\<forall>l. decide site (mounted_request ''/base/path'' ''/foo?x=1'' ForceAbsent False)
          \<noteq> Inr (Redirect l))
   \<and> decide site (plain_request ''/foo/bar/'' ForceAbsent True) = Inr (Redirect ''/foo/bar'')
   \<and> (\<forall>l. decide site (plain_request ''/foo/bar'' ForceAbsent True) \<noteq> Inr (Redirect l))"
proof -
  let ?r1 = "plain_request ''/foo/bar.html?x=1'' Unspecified True"
  let ?r1' = "plain_request ''/foo/bar?x=1'' Unspecified True"
  let ?r2 = "mounted_request ''/base/path'' ''/foo/?x=1'' ForceAbsent False"
  let ?r2' = "mounted_request ''/base/path'' ''/foo?x=1'' ForceAbsent False"
  let ?r3 = "plain_request ''/foo/bar/'' ForceAbsent True"
  let ?r3' = "plain_request ''/foo/bar'' ForceAbsent True"
  have a: "decide site ?r1 = Inr (Redirect ''/foo/bar?x=1'')"
    by (simp add: decide_def middleware_defs site_def plain_request_def helper_defs)
  have a1: "mounted_at [] ?r1" and a2: "mounted_at [] ?r1'"
    by (simp_all add: mounted_at_def plain_request_def helper_defs)
  have a3: "superstatic ?r1' = superstatic ?r1"
    by (simp add: plain_request_def)
  have a5: "url_pathname (originalUrl ?r1') = url_pathname ''/foo/bar?x=1''"
    by (simp add: plain_request_def)
  have a6: "url_pathname ''/foo/bar?x=1'' \<noteq> []"
    by (simp add: helper_defs)
  have a7: "cleanUrls (superstatic ?r1) \<longrightarrow> endsWith (url_pathname ''/foo/bar?x=1'') ''.html''
      \<longrightarrow> (\<forall>d. site (request_pathname ?r1') \<noteq> Inr (Some d))"
    by (simp add: helper_defs)
  have a8: "cleanUrls (superstatic ?r1) \<and> trailingSlash (superstatic ?r1) = ForceAbsent
      \<longrightarrow> request_originalPathname ?r1 \<noteq> ''/''
          \<and> \<not> endsWith (request_originalPathname ?r1) ''/index/''
          \<and> \<not> endsWith (request_originalPathname ?r1) ''/.html''"
    by (simp add: plain_request_def)
  have a9: "cleanUrls (superstatic ?r1) \<and> trailingSlash (superstatic ?r1) = ForcePresent
      \<longrightarrow> \<not> endsWith (request_originalPathname ?r1) ''/index/''
          \<and> \<not> endsWith (request_originalPathname ?r1) ''/index/.html''"
    by (simp add: plain_request_def)
  have a': "decide site ?r1' \<noteq> Inr (Redirect l)" for l
    using no_double_redirect [OF a1 a2 a3 a a5 a6 a7 a8 a9] .
  have b: "decide site ?r2 = Inr (Redirect ''/base/path/foo?x=1'')"
    by (simp add: decide_def middleware_defs site_def mounted_request_def helper_defs)
  have b1: "mounted_at ''/base/path'' ?r2" and b2: "mounted_at ''/base/path'' ?r2'"
    by (simp_all add: mounted_at_def mounted_request_def helper_defs)
  have b3: "superstatic ?r2' = superstatic ?r2"
    by (simp add: mounted_request_def)
  have b5: "url_pathname (originalUrl ?r2') = url_pathname ''/base/path/foo?x=1''"
    by (simp add: mounted_request_def)
  have b6: "url_pathname ''/base/path/foo?x=1'' \<noteq> []"
    by (simp add: helper_defs)
  have b7: "cleanUrls (superstatic ?r2)
      \<longrightarrow> endsWith (url_pathname ''/base/path/foo?x=1'') ''.html''
      \<longrightarrow> (\<forall>d. site (request_pathname ?r2') \<noteq> Inr (Some d))"
    by (simp add: mounted_request_def)
  have b8: "cleanUrls (superstatic ?r2) \<and> trailingSlash (superstatic ?r2) = ForceAbsent
      \<longrightarrow> request_originalPathname ?r2 \<noteq> ''/''
          \<and> \<not> endsWith (request_originalPathname ?r2) ''/index/''
          \<and> \<not> endsWith (request_originalPathname ?r2) ''/.html''"
    by (simp add: mounted_request_def)
  have b9: "cleanUrls (superstatic ?r2) \<and> trailingSlash (superstatic ?r2) = ForcePresent
      \<longrightarrow> \<not> endsWith (request_originalPathname ?r2) ''/index/''
          \<and> \<not> endsWith (request_originalPathname ?r2) ''/index/.html''"
    by (simp add: mounted_request_def)
  have b': "decide site ?r2' \<noteq> Inr (Redirect l)" for l
    using no_double_redirect [OF b1 b2 b3 b b5 b6 b7 b8 b9] .
  have c: "decide site ?r3 = Inr (Redirect ''/foo/bar'')"
    by (simp add: decide_def middleware_defs site_def plain_request_def helper_defs)
  have c1: "mounted_at [] ?r3" and c2: "mounted_at [] ?r3'"
    by (simp_all add: mounted_at_def plain_request_def helper_defs)
  have c3: "superstatic ?r3' = superstatic ?r3"
    by (simp add: plain_request_def)
  have c5: "url_pathname (originalUrl ?r3') = url_pathname ''/foo/bar''"
    by (simp add: plain_request_def)
  have c6: "url_pathname ''/foo/bar'' \<noteq> []"
    by (simp add: helper_defs)
  have c7: "cleanUrls (superstatic ?r3) \<longrightarrow> endsWith (url_pathname ''/foo/bar'') ''.html''
      \<longrightarrow> (\<forall>d. site (request_pathname ?r3') \<noteq> Inr (Some d))"
    by (simp add: helper_defs)
  have c8: "cleanUrls (superstatic ?r3) \<and> trailingSlash (superstatic ?r3) = ForceAbsent
      \<longrightarrow> request_originalPathname ?r3 \<noteq> ''/''
          \<and> \<not> endsWith (request_originalPathname ?r3) ''/index/''
          \<and> \<not> endsWith (request_originalPathname ?r3) ''/.html''"
    by (simp add: plain_request_def helper_defs)
  have c9: "cleanUrls (superstatic ?r3) \<and> trailingSlash (superstatic ?r3) = ForcePresent
      \<longrightarrow> \<not> endsWith (request_originalPathname ?r3) ''/index/''
          \<and> \<not> endsWith (request_originalPathname ?r3) ''/index/.html''"
    by (simp add: plain_request_def)
  have c': "decide site ?r3' \<noteq> Inr (Redirect l)" for l
    using no_double_redirect [OF c1 c2 c3 c c5 c6 c7 c8 c9] .
  show ?thesis using a a' b b' c c' by (intro conjI allI)
qed

end
